theory Spec2Isabelle
  imports Main
begin

section \<open>Host editor data: positions, ranges, URIs, document symbols\<close>

text \<open>
  The analysers of the extension work on values of the host editor's API. A position is a
  pair of a line and a character, both counted from zero; a range is a pair of positions.
  \<open>Range.contains\<close> and \<open>Range.isEqual\<close> compare positions lexicographically.
\<close>

datatype position = Position (line: nat) (character: nat)

datatype range = Range (rstart: position) (rend: position)

definition isBeforeOrEqual :: "position \<Rightarrow> position \<Rightarrow> bool" where
  "isBeforeOrEqual p q =
     (line p < line q \<or> (line p = line q \<and> character p \<le> character q))"

definition containsPosition :: "range \<Rightarrow> position \<Rightarrow> bool" where
  "containsPosition r p = (isBeforeOrEqual (rstart r) p \<and> isBeforeOrEqual p (rend r))"

definition rangeContains :: "range \<Rightarrow> range \<Rightarrow> bool" where
  "rangeContains r other =
     (containsPosition r (rstart other) \<and> containsPosition r (rend other))"

definition rangeIsEqual :: "range \<Rightarrow> range \<Rightarrow> bool" where
  "rangeIsEqual r other = (rstart r = rstart other \<and> rend r = rend other)"

text \<open>
  URIs are file URIs of a POSIX host: a URI is determined by its file-system path,
  \<open>toString\<close> prefixes the scheme and \<open>Uri.parse\<close> reads it back.
\<close>

datatype uri = Uri (fsPath: string)

definition uriToString :: "uri \<Rightarrow> string" where
  "uriToString u = ''file://'' @ fsPath u"

definition uriParse :: "string \<Rightarrow> uri" where
  "uriParse s = Uri (drop 7 s)"

datatype symbolKind =
    KFile | KModule | KNamespace | KPackage | KClass | KMethod | KProperty | KField
  | KConstructor | KEnum | KInterface | KFunction | KVariable | KConstant | KString
  | KNumber | KBoolean | KArray | KObject | KKey | KNull | KEnumMember | KStruct
  | KEvent | KOperator | KTypeParameter

datatype symbol =
  DocumentSymbol (symName: string) (symKind: symbolKind) (symRange: range)
    (symSelectionRange: range) (symChildren: "symbol list")

text \<open>\<open>isMethodSymbol\<close> of the symbol cache; both analysers repeat the same test inline.\<close>

definition isMethodSymbol :: "symbol \<Rightarrow> bool" where
  "isMethodSymbol s =
     (symKind s = KMethod \<or> symKind s = KFunction \<or> symKind s = KConstructor)"

section \<open>Backward analysis: the caller of a reference\<close>

text \<open>
  \<open>MethodCallAnalysisService.findContainingMethod\<close>: the symbols are visited in order; a
  symbol is tested before its children, and the first hit is returned.
\<close>

fun findContainingMethod :: "range \<Rightarrow> symbol list \<Rightarrow> symbol option" where
  "findContainingMethod r [] = None"
| "findContainingMethod r (DocumentSymbol n k rg sel ch # rest) =
     (if (k = KMethod \<or> k = KFunction \<or> k = KConstructor) \<and> rangeContains rg r
      then Some (DocumentSymbol n k rg sel ch)
      else (case findContainingMethod r ch of
              Some found \<Rightarrow> Some found
            | None \<Rightarrow> findContainingMethod r rest))"

text \<open>
  The specification's reading, written from its words: the smallest enclosing symbol of a
  method kind, the deepest containing range winning. A symbol's children are searched
  before the symbol itself is accepted.
\<close>

fun smallestEnclosingMethod :: "range \<Rightarrow> symbol list \<Rightarrow> symbol option" where
  "smallestEnclosingMethod r [] = None"
| "smallestEnclosingMethod r (DocumentSymbol n k rg sel ch # rest) =
     (case smallestEnclosingMethod r ch of
        Some found \<Rightarrow> Some found
      | None \<Rightarrow>
          (if (k = KMethod \<or> k = KFunction \<or> k = KConstructor) \<and> rangeContains rg r
           then Some (DocumentSymbol n k rg sel ch)
           else smallestEnclosingMethod r rest))"

text \<open>The symbols of a file in pre-order: a symbol, then its children, then its siblings.\<close>

fun preorder :: "symbol list \<Rightarrow> symbol list" where
  "preorder [] = []"
| "preorder (DocumentSymbol n k rg sel ch # rest) =
     DocumentSymbol n k rg sel ch # preorder ch @ preorder rest"

section \<open>The workspace symbol cache\<close>

text \<open>
  \<open>CachedSymbolInfo\<close>, \<open>CachedMethodInfo\<close> and \<open>MethodReferenceInfo\<close> as the source
  declares them. The field \<open>lastModified\<close> (a wall-clock stamp that nothing reads) and the
  optional field \<open>containingMethod\<close> of a reference (which nothing reads either) are left
  out.
\<close>

record CachedSymbolInfo =
  csiUri :: uri
  csiSymbols :: "symbol list"
  csiVersion :: int

record CachedMethodInfo =
  cmiMethodName :: string
  cmiUri :: uri
  cmiSymbol :: symbol
  cmiFilePath :: string

record MethodReferenceInfo =
  mriMethodName :: string
  mriUri :: uri
  mriRange :: range
  mriFilePath :: string

text \<open>
  The two JavaScript maps of \<open>WorkspaceSymbolCache\<close>, keyed by strings.

  Modelled from the spec: the third field, the sequence of reference records that
  \<open>findMethodReferences\<close> reads. The backward analyser calls that method, and the cache
  source has neither the method nor a store for it. No function of the cache source writes
  the field; see the section on the reference index below.
\<close>

record cache =
  symbolCache :: "string \<rightharpoonup> CachedSymbolInfo"
  methodNameCache :: "string \<rightharpoonup> CachedMethodInfo list"
  methodReferenceCache :: "MethodReferenceInfo list"

definition emptyCache :: cache where
  "emptyCache =
     \<lparr>symbolCache = Map.empty, methodNameCache = Map.empty, methodReferenceCache = []\<rparr>"

text \<open>
  \<open>removeMethodsFromCache\<close>: every entry loses the records of the file; an entry that
  becomes empty is deleted.
\<close>

definition removeMethodsFromCache ::
  "uri \<Rightarrow> (string \<rightharpoonup> CachedMethodInfo list) \<Rightarrow> (string \<rightharpoonup> CachedMethodInfo list)" where
  "removeMethodsFromCache u m =
     (\<lambda>methodName.
        case m methodName of
          None \<Rightarrow> None
        | Some methodInfos \<Rightarrow>
            (let filteredMethods =
                   filter (\<lambda>info. uriToString (cmiUri info) \<noteq> uriToString u) methodInfos
             in if length filteredMethods = 0 then None else Some filteredMethods))"

text \<open>
  \<open>extractMethodsFromSymbols\<close>: a method symbol is appended to the list stored under its
  name, then its children are processed, then the remaining symbols.
\<close>

fun extractMethodsFromSymbols ::
  "uri \<Rightarrow> symbol list \<Rightarrow> (string \<rightharpoonup> CachedMethodInfo list)
     \<Rightarrow> (string \<rightharpoonup> CachedMethodInfo list)" where
  "extractMethodsFromSymbols u [] m = m"
| "extractMethodsFromSymbols u (DocumentSymbol n k rg sel ch # rest) m =
     (let m1 =
        (if isMethodSymbol (DocumentSymbol n k rg sel ch)
         then (let methodInfo = \<lparr>cmiMethodName = n, cmiUri = u,
                                  cmiSymbol = DocumentSymbol n k rg sel ch,
                                  cmiFilePath = fsPath u\<rparr>;
                   existingMethods = (case m n of None \<Rightarrow> [] | Some ms \<Rightarrow> ms)
               in m(n \<mapsto> existingMethods @ [methodInfo]))
         else m)
      in extractMethodsFromSymbols u rest (extractMethodsFromSymbols u ch m1))"

definition buildMethodNameCacheForFile ::
  "uri \<Rightarrow> symbol list \<Rightarrow> (string \<rightharpoonup> CachedMethodInfo list)
     \<Rightarrow> (string \<rightharpoonup> CachedMethodInfo list)" where
  "buildMethodNameCacheForFile u symbols m =
     extractMethodsFromSymbols u symbols (removeMethodsFromCache u m)"

definition findMethodsByName :: "cache \<Rightarrow> string \<Rightarrow> CachedMethodInfo list" where
  "findMethodsByName c methodName =
     (case methodNameCache c methodName of None \<Rightarrow> [] | Some ms \<Rightarrow> ms)"

text \<open>String helpers of JavaScript used by \<open>findMethodDefinition\<close>.\<close>

fun lastIndexOfFrom :: "char \<Rightarrow> string \<Rightarrow> nat \<Rightarrow> int \<Rightarrow> int" where
  "lastIndexOfFrom c [] i acc = acc"
| "lastIndexOfFrom c (x # xs) i acc =
     lastIndexOfFrom c xs (Suc i) (if x = c then int i else acc)"

definition lastIndexOf :: "string \<Rightarrow> char \<Rightarrow> int" where
  "lastIndexOf s c = lastIndexOfFrom c s 0 (- 1)"

definition substring0 :: "string \<Rightarrow> int \<Rightarrow> string" where
  \<comment> \<open>\<open>s.substring(0, n)\<close>: a negative \<open>n\<close> counts as zero.\<close>
  "substring0 s n = take (nat n) s"

definition startsWith :: "string \<Rightarrow> string \<Rightarrow> bool" where
  "startsWith s p = (take (length p) s = p)"

text \<open>
  \<open>WorkspaceSymbolCache.findMethodDefinition\<close>. The context URI is optional; \<open>None\<close> is the
  call without it.
\<close>

definition findMethodDefinition ::
  "cache \<Rightarrow> string \<Rightarrow> uri option \<Rightarrow> CachedMethodInfo option" where
  "findMethodDefinition c methodName contextUri =
     (let methods = findMethodsByName c methodName in
      if length methods = 0 then None
      else if length methods = 1 then Some (hd methods)
      else
        (case contextUri of
           None \<Rightarrow> Some (hd methods)
         | Some ctx \<Rightarrow>
             (let contextPath = uriToString ctx in
              case List.find (\<lambda>method. uriToString (cmiUri method) = contextPath) methods of
                Some sameFile \<Rightarrow> Some sameFile
              | None \<Rightarrow>
                  (let contextDir = substring0 (fsPath ctx) (lastIndexOf (fsPath ctx) CHR ''/'') in
                   case List.find (\<lambda>method. startsWith (cmiFilePath method) contextDir) methods of
                     Some sameDir \<Rightarrow> Some sameDir
                   | None \<Rightarrow> Some (hd methods)))))"

text \<open>
  The specification's reading of the second preference, written from its words: the
  candidate's file lies under the directory of the context file.
\<close>

definition dirname :: "string \<Rightarrow> string" where
  "dirname p = substring0 p (lastIndexOf p CHR ''/'')"

definition liesUnderDirectory :: "string \<Rightarrow> string \<Rightarrow> bool" where
  "liesUnderDirectory filePath dir = startsWith filePath (dir @ ''/'')"

definition resolveDefinition_spec ::
  "cache \<Rightarrow> string \<Rightarrow> uri option \<Rightarrow> CachedMethodInfo option" where
  "resolveDefinition_spec c methodName contextUri =
     (let methods = findMethodsByName c methodName in
      case methods of
        [] \<Rightarrow> None
      | [m] \<Rightarrow> Some m
      | m # _ \<Rightarrow>
          (case contextUri of
             None \<Rightarrow> Some m
           | Some ctx \<Rightarrow>
               (case List.find (\<lambda>cand. cmiUri cand = ctx) methods of
                  Some sameFile \<Rightarrow> Some sameFile
                | None \<Rightarrow>
                    (case List.find
                            (\<lambda>cand. liesUnderDirectory (cmiFilePath cand) (dirname (fsPath ctx)))
                            methods of
                       Some nested \<Rightarrow> Some nested
                     | None \<Rightarrow> Some m))))"

text \<open>
  The list stored under a name, and the records that one file contributes under a name:
  one record for every method symbol of that name in the outline of the file, in
  pre-order.
\<close>

definition lookupMethods :: "(string \<rightharpoonup> CachedMethodInfo list) \<Rightarrow> string \<Rightarrow> CachedMethodInfo list" where
  "lookupMethods m n = (case m n of None \<Rightarrow> [] | Some ms \<Rightarrow> ms)"

definition contributedDefinitions :: "uri \<Rightarrow> symbol list \<Rightarrow> string \<Rightarrow> CachedMethodInfo list" where
  "contributedDefinitions u symbols methodName =
     map (\<lambda>s. \<lparr>cmiMethodName = symName s, cmiUri = u, cmiSymbol = s, cmiFilePath = fsPath u\<rparr>)
         (filter (\<lambda>s. isMethodSymbol s \<and> symName s = methodName) (preorder symbols))"
text \<open>
  The two maps of the cache agree when every definition record belongs to a file that has
  a symbol entry. The empty cache is in this state, and indexing or invalidating a file
  keeps the cache in it.
\<close>

definition cacheConsistent :: "cache \<Rightarrow> bool" where
  "cacheConsistent c =
     (\<forall>methodName i. i \<in> set (lookupMethods (methodNameCache c) methodName)
        \<longrightarrow> symbolCache c (uriToString (cmiUri i)) \<noteq> None)"

section \<open>The host editor\<close>

text \<open>
  The extension asks the host for documents, symbol outlines, definitions and the list of
  workspace files. The host is a parameter of the model: a record of its answers. A call
  that throws, or that answers \<open>undefined\<close>, is \<open>None\<close>. A text document answers with its
  version, its text, the text of a range, and the conversions between offsets and
  positions.
\<close>

record document =
  docVersion :: int
  docGetText :: string
  docGetTextRange :: "range \<Rightarrow> string"
  docOffsetAt :: "position \<Rightarrow> int"
  docPositionAt :: "int \<Rightarrow> position"

record host =
  openTextDocument :: "uri \<Rightarrow> document option"
  executeDocumentSymbolProvider :: "uri \<Rightarrow> symbol list option"
  executeDefinitionProvider :: "uri \<Rightarrow> position \<Rightarrow> (uri \<times> range) list option"
  findFiles :: "uri list option"

section \<open>Lexical extraction of calls\<close>

definition isWordChar :: "char \<Rightarrow> bool" where
  \<comment> \<open>the class \<open>\w\<close> of a JavaScript regular expression\<close>
  "isWordChar c =
     (let n = (of_char c :: nat)
      in (48 \<le> n \<and> n \<le> 57) \<or> (65 \<le> n \<and> n \<le> 90) \<or> n = 95 \<or> (97 \<le> n \<and> n \<le> 122))"

definition isSpaceChar :: "char \<Rightarrow> bool" where
  \<comment> \<open>the class \<open>\s\<close>, restricted to the characters a \<open>char\<close> can hold\<close>
  "isSpaceChar c =
     (let n = (of_char c :: nat) in (9 \<le> n \<and> n \<le> 13) \<or> n = 32 \<or> n = 160)"

definition isDigitChar :: "char \<Rightarrow> bool" where
  "isDigitChar c = (let n = (of_char c :: nat) in 48 \<le> n \<and> n \<le> 57)"

definition toLowerChar :: "char \<Rightarrow> char" where
  "toLowerChar c =
     (let n = (of_char c :: nat) in if 65 \<le> n \<and> n \<le> 90 then char_of (n + 32) else c)"

definition toLowerCase :: "string \<Rightarrow> string" where
  "toLowerCase s = map toLowerChar s"

text \<open>\<open>s.indexOf(p)\<close>: the first index at which \<open>p\<close> occurs in \<open>s\<close>, or \<open>-1\<close>.\<close>

fun indexOfFrom :: "string \<Rightarrow> string \<Rightarrow> nat \<Rightarrow> int" where
  "indexOfFrom [] p i = (if p = [] then int i else - 1)"
| "indexOfFrom (x # xs) p i =
     (if startsWith (x # xs) p then int i else indexOfFrom xs p (Suc i))"

definition indexOf :: "string \<Rightarrow> string \<Rightarrow> int" where
  "indexOf s p = indexOfFrom s p 0"

definition stringIncludes :: "string \<Rightarrow> string \<Rightarrow> bool" where
  "stringIncludes s p = (0 \<le> indexOf s p)"

datatype callMatch = CallMatch (matchName: string) (matchIndex: int)

text \<open>
  The tail \<open>(\w+)\s*\(\<close> shared by both regular expressions, tried at the head of a
  string. Both quantifiers are greedy and backtracking cannot help: after a shorter name
  the next character is a word character, after fewer blanks it is a blank. The result is
  the captured name and the length of the text matched.
\<close>

definition matchCallAt :: "string \<Rightarrow> (string \<times> nat) option" where
  "matchCallAt s =
     (let nm = takeWhile isWordChar s;
          afterName = dropWhile isWordChar s;
          blanks = takeWhile isSpaceChar afterName;
          afterBlanks = dropWhile isSpaceChar afterName
      in case afterBlanks of
           [] \<Rightarrow> None
         | c # _ \<Rightarrow>
             if nm \<noteq> [] \<and> c = CHR ''(''
             then Some (nm, length nm + length blanks + 1)
             else None)"

text \<open>
  One attempt of \<open>/(?:^|[^.\w])(\w+)\s*\(/\<close> at index \<open>pos\<close>, the rest of the text from
  there being \<open>s\<close>: first the alternative \<open>^\<close> (only at index 0), then the alternative of
  one character that is neither a dot nor a word character. The result is the name, the
  text matched and the index after the match.
\<close>

definition tryMethodCallRegex :: "nat \<Rightarrow> string \<Rightarrow> (string \<times> string \<times> nat) option" where
  "tryMethodCallRegex pos s =
     (case (if pos = 0 then matchCallAt s else None) of
        Some (nm, len) \<Rightarrow> Some (nm, take len s, pos + len)
      | None \<Rightarrow>
          (case s of
             [] \<Rightarrow> None
           | c # s' \<Rightarrow>
               if c \<noteq> CHR ''.'' \<and> \<not> isWordChar c
               then (case matchCallAt s' of
                       Some (nm, len) \<Rightarrow> Some (nm, take (Suc len) s, pos + Suc len)
                     | None \<Rightarrow> None)
               else None))"

text \<open>
  The loop \<open>while ((match = methodCallRegex.exec(text)) !== null)\<close> of a global regular
  expression: the search for the next match starts at \<open>lastIndex\<close>, the index after the
  previous match. The recorded index is \<open>match.index + match[0].indexOf(methodName)\<close>.
\<close>

fun methodCallRegexLoop :: "nat \<Rightarrow> nat \<Rightarrow> string \<Rightarrow> callMatch list" where
  "methodCallRegexLoop pos lastIndex [] = []"
| "methodCallRegexLoop pos lastIndex (c # cs) =
     (if pos < lastIndex then methodCallRegexLoop (Suc pos) lastIndex cs
      else
        (case tryMethodCallRegex pos (c # cs) of
           Some (nm, match0, after) \<Rightarrow>
             CallMatch nm (int pos + indexOf match0 nm)
               # methodCallRegexLoop (Suc pos) after cs
         | None \<Rightarrow> methodCallRegexLoop (Suc pos) lastIndex cs))"

text \<open>The same loop for \<open>/\.(\w+)\s*\(/g\<close>; the recorded index is \<open>match.index + 1\<close>.\<close>

fun propertyMethodRegexLoop :: "nat \<Rightarrow> nat \<Rightarrow> string \<Rightarrow> callMatch list" where
  "propertyMethodRegexLoop pos lastIndex [] = []"
| "propertyMethodRegexLoop pos lastIndex (c # cs) =
     (if pos < lastIndex then propertyMethodRegexLoop (Suc pos) lastIndex cs
      else if c = CHR ''.''
      then (case matchCallAt cs of
              Some (nm, len) \<Rightarrow>
                CallMatch nm (int pos + 1)
                  # propertyMethodRegexLoop (Suc pos) (pos + Suc len) cs
            | None \<Rightarrow> propertyMethodRegexLoop (Suc pos) lastIndex cs)
      else propertyMethodRegexLoop (Suc pos) lastIndex cs)"

definition findAllMethodCallMatches :: "string \<Rightarrow> callMatch list" where
  "findAllMethodCallMatches text =
     methodCallRegexLoop 0 0 text @ propertyMethodRegexLoop 0 0 text"

definition builtInMethods :: "string list" where
  "builtInMethods =
     [''console'', ''log'', ''error'', ''warn'', ''info'', ''debug'',
      ''push'', ''pop'', ''shift'', ''unshift'', ''slice'', ''splice'',
      ''map'', ''filter'', ''reduce'', ''forEach'', ''find'', ''some'', ''every'',
      ''toString'', ''valueOf'', ''hasOwnProperty'', ''isPrototypeOf'',
      ''length'', ''indexOf'', ''lastIndexOf'', ''charAt'', ''charCodeAt'',
      ''if'', ''else'', ''for'', ''while'', ''do'', ''switch'', ''case'', ''return'',
      ''var'', ''let'', ''const'', ''function'', ''class'', ''import'', ''export'',
      ''try'', ''catch'', ''finally'', ''throw'', ''new'', ''delete'', ''typeof'',
      ''instanceof'', ''in'', ''of'', ''true'', ''false'', ''null'', ''undefined'']"

definition isBuiltInOrCommon :: "string \<Rightarrow> bool" where
  "isBuiltInOrCommon methodName =
     (List.member builtInMethods (toLowerCase methodName)
      \<or> length methodName < 2
      \<or> (case methodName of [] \<Rightarrow> False | c # _ \<Rightarrow> isDigitChar c))"

section \<open>The reference index and the cache statistics\<close>

text \<open>
  Modelled from the spec: \<open>findMethodReferences\<close>, which \<open>searchCachedReferences\<close> calls
  and the cache source does not have. The lookup is by exact name and returns the sequence
  of the reference records known under it.
\<close>

definition findMethodReferences :: "cache \<Rightarrow> string \<Rightarrow> MethodReferenceInfo list" where
  "findMethodReferences c methodName =
     filter (\<lambda>info. mriMethodName info = methodName) (methodReferenceCache c)"

text \<open>
  \<open>getMethodCacheStats\<close> and \<open>getCacheStats\<close>. The object that \<open>getCacheStats\<close> returns is
  the list of its properties with their values: the number of cached files, twice, the
  number of definition records and the number of method names.
\<close>

definition getCacheStats :: "cache \<Rightarrow> (string \<times> nat) list" where
  "getCacheStats c =
     [(''totalFiles'', card (dom (symbolCache c))),
      (''cacheSize'', card (dom (symbolCache c))),
      (''totalMethods'', (\<Sum>methodName \<in> dom (methodNameCache c).
                            length (lookupMethods (methodNameCache c) methodName))),
      (''uniqueMethodNames'', card (dom (methodNameCache c)))]"

text \<open>
  Reading a property of an object gives \<open>undefined\<close>, here \<open>None\<close>, when the object does not
  have it, and the comparison \<open>undefined > 0\<close> is false. \<open>searchWorkspaceForMethod\<close> reads
  the property \<open>totalReferences\<close> of the statistics.
\<close>

definition readProperty :: "(string \<times> nat) list \<Rightarrow> string \<Rightarrow> nat option" where
  "readProperty object name = map_of object name"

definition greaterThanZero :: "nat option \<Rightarrow> bool" where
  "greaterThanZero v = (case v of None \<Rightarrow> False | Some n \<Rightarrow> 0 < n)"

section \<open>Indexing and invalidating a file\<close>

text \<open>
  \<open>updateFileCache\<close> and \<open>indexSingleFile\<close> have the same body: when the document opens
  and the symbol provider answers, the symbol entry of the file is replaced and the
  file's part of the method name cache is rebuilt; otherwise (an exception, caught and
  logged, or no answer) the cache is left as it is. \<open>invalidateFileCache\<close> deletes the
  symbol entry of a file that has one, and the file's records in the method name cache.
\<close>

definition updateFileCache :: "host \<Rightarrow> uri \<Rightarrow> cache \<Rightarrow> cache" where
  "updateFileCache h u c =
     (case openTextDocument h u of
        None \<Rightarrow> c
      | Some doc \<Rightarrow>
          (case executeDocumentSymbolProvider h u of
             None \<Rightarrow> c
           | Some symbols \<Rightarrow>
               c\<lparr>symbolCache := (symbolCache c)(uriToString u \<mapsto>
                      \<lparr>csiUri = u, csiSymbols = symbols, csiVersion = docVersion doc\<rparr>),
                  methodNameCache :=
                    buildMethodNameCacheForFile u symbols (methodNameCache c)\<rparr>))"

definition indexSingleFile :: "host \<Rightarrow> uri \<Rightarrow> cache \<Rightarrow> cache" where
  "indexSingleFile h u c =
     (case openTextDocument h u of
        None \<Rightarrow> c
      | Some doc \<Rightarrow>
          (case executeDocumentSymbolProvider h u of
             None \<Rightarrow> c
           | Some symbols \<Rightarrow>
               c\<lparr>symbolCache := (symbolCache c)(uriToString u \<mapsto>
                      \<lparr>csiUri = u, csiSymbols = symbols, csiVersion = docVersion doc\<rparr>),
                  methodNameCache :=
                    buildMethodNameCacheForFile u symbols (methodNameCache c)\<rparr>))"

definition invalidateFileCache :: "uri \<Rightarrow> cache \<Rightarrow> cache" where
  "invalidateFileCache u c =
     (if symbolCache c (uriToString u) \<noteq> None
      then c\<lparr>symbolCache := (symbolCache c)(uriToString u := None),
             methodNameCache := removeMethodsFromCache u (methodNameCache c)\<rparr>
      else c)"

text \<open>
  \<open>getSymbolsForFile\<close>: a cached entry is returned when the document has the cached
  version, or when the document cannot be opened; in every other case the file is indexed
  afresh and whatever the cache then holds is returned.
\<close>

definition getSymbolsForFile :: "host \<Rightarrow> uri \<Rightarrow> bool \<Rightarrow> cache \<Rightarrow> symbol list \<times> cache" where
  "getSymbolsForFile h u forceRefresh c =
     (let refetch =
            (let c' = updateFileCache h u c
             in (case symbolCache c' (uriToString u) of
                   None \<Rightarrow> []
                 | Some updated \<Rightarrow> csiSymbols updated, c'))
      in case symbolCache c (uriToString u) of
           None \<Rightarrow> refetch
         | Some cached \<Rightarrow>
             if forceRefresh then refetch
             else (case openTextDocument h u of
                     None \<Rightarrow> (csiSymbols cached, c)
                   | Some doc \<Rightarrow>
                       if docVersion doc = csiVersion cached then (csiSymbols cached, c)
                       else refetch))"

section \<open>The analysis services\<close>

text \<open>
  Both services hold a maximal depth, 3 when the service is created, and the set of keys
  of the methods already processed. \<open>setMaxDepth\<close> is the same in both classes.
\<close>

record service =
  maxDepth :: int
  processedMethods :: "string set"

definition newService :: service where
  "newService = \<lparr>maxDepth = 3, processedMethods = {}\<rparr>"

definition setMaxDepth :: "int \<Rightarrow> service \<Rightarrow> service" where
  "setMaxDepth depth svc = svc\<lparr>maxDepth := max 1 (min depth 10)\<rparr>"

definition getMaxDepth :: "service \<Rightarrow> int" where
  "getMaxDepth svc = maxDepth svc"

text \<open>Decimal digits of a number, as a template string prints it.\<close>

function showNat :: "nat \<Rightarrow> string" where
  "showNat n =
     (if n < 10 then [char_of (48 + n)]
      else showNat (n div 10) @ [char_of (48 + n mod 10)])"
  by pat_completeness auto
termination
  by (relation "measure id") auto

declare showNat.simps [simp del]

section \<open>Backward analysis\<close>

datatype location = Location (locUri: uri) (locRange: range)

datatype MethodCallInfo =
  MethodCallInfo (mciMethodName: string) (mciUri: uri) (mciRange: range)
    (mciCallerMethodName: "string option") (mciDepth: nat)
    (mciChildren: "MethodCallInfo list")

definition searchCachedReferences :: "cache \<Rightarrow> string \<Rightarrow> location list" where
  "searchCachedReferences c methodName =
     map (\<lambda>ref. Location (mriUri ref) (mriRange ref)) (findMethodReferences c methodName)
     @ map (\<lambda>methodDef. Location (cmiUri methodDef) (symSelectionRange (cmiSymbol methodDef)))
           (findMethodsByName c methodName)"

fun findMethodCallsInSymbols :: "string \<Rightarrow> symbol list \<Rightarrow> uri \<Rightarrow> location list \<Rightarrow> location list" where
  "findMethodCallsInSymbols methodName [] u locations = locations"
| "findMethodCallsInSymbols methodName (DocumentSymbol n k rg sel ch # rest) u locations =
     findMethodCallsInSymbols methodName rest u
       (findMethodCallsInSymbols methodName ch u
          (if stringIncludes n methodName then locations @ [Location u sel] else locations))"

fun searchCachedSymbolsFiles ::
  "host \<Rightarrow> string \<Rightarrow> uri list \<Rightarrow> location list \<Rightarrow> cache \<Rightarrow> location list \<times> cache" where
  "searchCachedSymbolsFiles h methodName [] locations c = (locations, c)"
| "searchCachedSymbolsFiles h methodName (file # files) locations c =
     (case getSymbolsForFile h file False c of
        (symbols, c') \<Rightarrow>
          searchCachedSymbolsFiles h methodName files
            (findMethodCallsInSymbols methodName symbols file locations) c')"

text \<open>
  \<open>searchCachedSymbols\<close> is the second branch of \<open>searchWorkspaceForMethod\<close> below: the
  definitions known under the name, then, file by file, every symbol whose name includes
  the name (\<open>findMethodCallsInSymbols\<close>, with the loop over the files in
  \<open>searchCachedSymbolsFiles\<close>). An exception of the file enumeration is caught in
  \<open>searchWorkspaceForMethod\<close> and gives no location. The statistics have no property
  \<open>totalReferences\<close>, so the test of the first branch fails in every state and the search
  always goes through the symbols.
\<close>

definition searchWorkspaceForMethod :: "host \<Rightarrow> string \<Rightarrow> cache \<Rightarrow> location list \<times> cache" where
  "searchWorkspaceForMethod h methodName c =
     (if greaterThanZero (readProperty (getCacheStats c) ''totalReferences'')
      then (searchCachedReferences c methodName, c)
      else
        (case findFiles h of
           None \<Rightarrow> ([], c)
         | Some files \<Rightarrow>
             searchCachedSymbolsFiles h methodName files
               (map (\<lambda>methodDef. Location (cmiUri methodDef)
                                           (symSelectionRange (cmiSymbol methodDef)))
                    (findMethodsByName c methodName)) c))"

text \<open>The map \<open>callsByFile\<close>: keys in the order of their first reference.\<close>

fun callsByFileAdd ::
  "string \<Rightarrow> location \<Rightarrow> (string \<times> location list) list \<Rightarrow> (string \<times> location list) list" where
  "callsByFileAdd fileKey ref [] = [(fileKey, [ref])]"
| "callsByFileAdd fileKey ref ((k, refs) # rest) =
     (if k = fileKey then (k, refs @ [ref]) # rest
      else (k, refs) # callsByFileAdd fileKey ref rest)"

definition callsByFile :: "location list \<Rightarrow> (string \<times> location list) list" where
  "callsByFile references =
     foldl (\<lambda>acc ref. callsByFileAdd (uriToString (locUri ref)) ref acc) [] references"

definition filterDefinitionSite :: "MethodCallInfo \<Rightarrow> uri \<Rightarrow> location list \<Rightarrow> location list" where
  "filterDefinitionSite callInfo u locations =
     filter (\<lambda>loc.
        (let isSameLocation = (uriToString u = uriToString (mciUri callInfo)
                               \<and> rangeIsEqual (locRange loc) (mciRange callInfo));
             isDefinitionRange = (uriToString u = uriToString (mciUri callInfo)
                               \<and> (rangeContains (locRange loc) (mciRange callInfo)
                                    \<or> rangeContains (mciRange callInfo) (locRange loc)))
         in \<not> isSameLocation \<and> \<not> isDefinitionRange)) locations"

definition existingChild :: "MethodCallInfo list \<Rightarrow> symbol \<Rightarrow> uri \<Rightarrow> MethodCallInfo option" where
  "existingChild children callingMethod u =
     List.find (\<lambda>child. mciMethodName child = symName callingMethod
                       \<and> uriToString (mciUri child) = uriToString u
                       \<and> rangeIsEqual (mciRange child) (symSelectionRange callingMethod))
               children"

definition backwardMethodKey :: "MethodCallInfo \<Rightarrow> string" where
  "backwardMethodKey callInfo =
     uriToString (mciUri callInfo) @ '':'' @ showNat (line (rstart (mciRange callInfo)))
       @ '':'' @ showNat (character (rstart (mciRange callInfo)))
       @ '':'' @ mciMethodName callInfo"

text \<open>
  \<open>findMethodReferencesWorkspace\<close> mutates the node it is given and the set
  \<open>processedMethods\<close>, and reading symbols may refresh the cache: the model passes the
  set and the cache along and returns the node with its children. The two nested
  \<open>for\<close> loops are \<open>forEachFile\<close> and \<open>forEachLocation\<close>; the list of children built so
  far is their accumulator.
\<close>

function
  findMethodReferencesWorkspace ::
    "host \<Rightarrow> int \<Rightarrow> MethodCallInfo \<Rightarrow> nat \<Rightarrow> string set \<times> cache
       \<Rightarrow> MethodCallInfo \<times> (string set \<times> cache)"
and
  forEachFile ::
    "host \<Rightarrow> int \<Rightarrow> MethodCallInfo \<Rightarrow> nat \<Rightarrow> (string \<times> location list) list
       \<Rightarrow> MethodCallInfo list \<Rightarrow> string set \<times> cache
       \<Rightarrow> MethodCallInfo list \<times> (string set \<times> cache)"
and
  forEachLocation ::
    "host \<Rightarrow> int \<Rightarrow> MethodCallInfo \<Rightarrow> nat \<Rightarrow> uri \<Rightarrow> symbol list \<Rightarrow> location list
       \<Rightarrow> MethodCallInfo list \<Rightarrow> string set \<times> cache
       \<Rightarrow> MethodCallInfo list \<times> (string set \<times> cache)"
where
  "findMethodReferencesWorkspace h md callInfo currentDepth st =
     (if md \<le> int currentDepth then (callInfo, st)
      else if backwardMethodKey callInfo \<in> fst st then (callInfo, st)
      else
        (case searchWorkspaceForMethod h (mciMethodName callInfo) (snd st) of
           (references, c1) \<Rightarrow>
             if length references = 0
             then (callInfo, (insert (backwardMethodKey callInfo) (fst st), c1))
             else
               (case forEachFile h md callInfo currentDepth (callsByFile references)
                       (mciChildren callInfo)
                       (insert (backwardMethodKey callInfo) (fst st), c1) of
                  (children, st') \<Rightarrow>
                    (MethodCallInfo (mciMethodName callInfo) (mciUri callInfo)
                       (mciRange callInfo) (mciCallerMethodName callInfo)
                       (mciDepth callInfo) children, st'))))"
| "forEachFile h md callInfo currentDepth [] children st = (children, st)"
| "forEachFile h md callInfo currentDepth ((fileUri, locations) # rest) children st =
     (if length (filterDefinitionSite callInfo (uriParse fileUri) locations) = 0
      then forEachFile h md callInfo currentDepth rest children st
      else
        (case getSymbolsForFile h (uriParse fileUri) False (snd st) of
           (symbols, c1) \<Rightarrow>
             if length symbols = 0
             then forEachFile h md callInfo currentDepth rest children (fst st, c1)
             else
               (case forEachLocation h md callInfo currentDepth (uriParse fileUri) symbols
                       (filterDefinitionSite callInfo (uriParse fileUri) locations)
                       children (fst st, c1) of
                  (children', st') \<Rightarrow>
                    forEachFile h md callInfo currentDepth rest children' st')))"
| "forEachLocation h md callInfo currentDepth u symbols [] children st = (children, st)"
| "forEachLocation h md callInfo currentDepth u symbols (location # rest) children st =
     (case findContainingMethod (locRange location) symbols of
        None \<Rightarrow> forEachLocation h md callInfo currentDepth u symbols rest children st
      | Some callingMethod \<Rightarrow>
          (case existingChild children callingMethod u of
             Some found \<Rightarrow>
               forEachLocation h md callInfo currentDepth u symbols rest children st
           | None \<Rightarrow>
               (case findMethodReferencesWorkspace h md
                       (MethodCallInfo (symName callingMethod) u
                          (symSelectionRange callingMethod)
                          (Some (mciMethodName callInfo)) (currentDepth + 1) [])
                       (currentDepth + 1) st of
                  (childCallInfo, st') \<Rightarrow>
                    forEachLocation h md callInfo currentDepth u symbols rest
                      (children @ [childCallInfo]) st')))"
  by pat_completeness auto
termination
  by (relation
       "measures
          [\<lambda>x. case x of
                  Inl (h, md, callInfo, d, st) \<Rightarrow>
                    (if int d < md then 3 * nat (md - int d) + 3 else 0)
                | Inr (Inl (h, md, callInfo, d, files, children, st)) \<Rightarrow>
                    3 * nat (md - int d) + 2
                | Inr (Inr (h, md, callInfo, d, u, symbols, locations, children, st)) \<Rightarrow>
                    3 * nat (md - int d) + 1,
           \<lambda>x. case x of
                  Inl (h, md, callInfo, d, st) \<Rightarrow> 0
                | Inr (Inl (h, md, callInfo, d, files, children, st)) \<Rightarrow> length files
                | Inr (Inr (h, md, callInfo, d, u, symbols, locations, children, st)) \<Rightarrow>
                    length locations]")
     auto

declare findMethodReferencesWorkspace.simps [simp del]

text \<open>
  The result of an asynchronous entry point: the promise is fulfilled with a value or
  rejected with an exception. \<open>tryCatch\<close> is a \<open>try\<close> block whose handler returns a value.
\<close>

datatype 'a outcome = Returned 'a | Threw

definition tryCatch :: "'a outcome \<Rightarrow> 'a \<Rightarrow> 'a outcome" where
  "tryCatch body handler = (case body of Returned v \<Rightarrow> Returned v | Threw \<Rightarrow> Returned handler)"

text \<open>
  The \<open>try\<close> block of \<open>analyzeMethodCalls\<close>: the set of processed methods is cleared, the
  root node is created at depth 0 and expanded. Every host failure inside is caught
  further down, so the block itself always returns.
\<close>

definition analyzeMethodCallsBody ::
  "host \<Rightarrow> symbol \<Rightarrow> uri \<Rightarrow> service \<times> cache
     \<Rightarrow> MethodCallInfo option outcome \<times> (service \<times> cache)" where
  "analyzeMethodCallsBody h methodSymbol u sc =
     (case findMethodReferencesWorkspace h (maxDepth (fst sc))
             (MethodCallInfo (symName methodSymbol) u (symSelectionRange methodSymbol) None 0 [])
             0 ({}, snd sc) of
        (rootCallInfo, (processed, c')) \<Rightarrow>
          (Returned (Some rootCallInfo), ((fst sc)\<lparr>processedMethods := processed\<rparr>, c')))"

definition analyzeMethodCalls ::
  "host \<Rightarrow> symbol \<Rightarrow> uri \<Rightarrow> service \<times> cache
     \<Rightarrow> MethodCallInfo option outcome \<times> (service \<times> cache)" where
  "analyzeMethodCalls h methodSymbol u sc =
     (case analyzeMethodCallsBody h methodSymbol u sc of
        (body, sc') \<Rightarrow> (tryCatch body None, sc'))"

section \<open>Forward analysis\<close>

datatype InternalMethodCallInfo =
  InternalMethodCallInfo (imcMethodName: string) (imcUri: uri) (imcRange: range)
    (imcDefinitionUri: "uri option") (imcDefinitionRange: "range option") (imcDepth: nat)
    (imcChildren: "InternalMethodCallInfo list") (imcIsResolved: bool) (imcIsRecursive: bool)

record InternalCallAnalysisResult =
  rootMethod :: string
  rootUri :: uri
  rootRange :: range
  calls :: "InternalMethodCallInfo list"
  totalCallsFound :: nat
  analysisDepth :: int

text \<open>
  \<open>InternalMethodCallAnalysisService.findMethodDefinition\<close>: the method name cache first,
  then the host's definition provider at the dummy position (0, 0); an exception of the
  provider is caught and gives \<open>null\<close>.
\<close>

definition serviceFindMethodDefinition ::
  "host \<Rightarrow> cache \<Rightarrow> string \<Rightarrow> uri \<Rightarrow> (uri \<times> range) option" where
  "serviceFindMethodDefinition h c methodName currentUri =
     (case findMethodDefinition c methodName (Some currentUri) of
        Some methodInfo \<Rightarrow> Some (cmiUri methodInfo, symSelectionRange (cmiSymbol methodInfo))
      | None \<Rightarrow>
          (case executeDefinitionProvider h currentUri (Position 0 0) of
             None \<Rightarrow> None
           | Some definitions \<Rightarrow>
               (case definitions of [] \<Rightarrow> None | d # _ \<Rightarrow> Some d)))"

fun findSymbolAtRange :: "symbol list \<Rightarrow> range \<Rightarrow> symbol option" where
  "findSymbolAtRange [] r = None"
| "findSymbolAtRange (DocumentSymbol n k rg sel ch # rest) r =
     (if rangeIsEqual sel r \<or> rangeContains rg r
      then (if rangeIsEqual sel r then Some (DocumentSymbol n k rg sel ch)
            else (case findSymbolAtRange ch r of
                    Some found \<Rightarrow> Some found
                  | None \<Rightarrow> Some (DocumentSymbol n k rg sel ch)))
      else findSymbolAtRange rest r)"

definition forwardMethodKey :: "(uri \<times> range) option \<Rightarrow> string \<Rightarrow> string" where
  "forwardMethodKey definition methodName =
     (case definition of
        Some (defUri, defRange) \<Rightarrow>
          uriToString defUri @ '':'' @ showNat (line (rstart defRange))
            @ '':'' @ showNat (character (rstart defRange))
      | None \<Rightarrow> ''unknown:'' @ methodName)"

definition callRangeOf :: "document \<Rightarrow> range \<Rightarrow> callMatch \<Rightarrow> range" where
  "callRangeOf doc baseRange m =
     (let startOffset = docOffsetAt doc (rstart baseRange) + matchIndex m;
          endOffset = startOffset + int (length (matchName m))
      in Range (docPositionAt doc startOffset) (docPositionAt doc endOffset))"

definition duplicateKey :: "InternalMethodCallInfo \<Rightarrow> string" where
  "duplicateKey call =
     imcMethodName call @ '':'' @ showNat (line (rstart (imcRange call)))
       @ '':'' @ showNat (character (rstart (imcRange call)))
       @ '':'' @ uriToString (imcUri call)"

fun removeDuplicateCallsFrom ::
  "string set \<Rightarrow> InternalMethodCallInfo list \<Rightarrow> InternalMethodCallInfo list" where
  "removeDuplicateCallsFrom seen [] = []"
| "removeDuplicateCallsFrom seen (call # rest) =
     (if duplicateKey call \<in> seen then removeDuplicateCallsFrom seen rest
      else call # removeDuplicateCallsFrom (insert (duplicateKey call) seen) rest)"

definition removeDuplicateCalls :: "InternalMethodCallInfo list \<Rightarrow> InternalMethodCallInfo list" where
  "removeDuplicateCalls cs = removeDuplicateCallsFrom {} cs"

fun countTotalCalls :: "InternalMethodCallInfo list \<Rightarrow> nat" where
  "countTotalCalls [] = 0"
| "countTotalCalls (InternalMethodCallInfo n u r du dr d ch res isrec # rest) =
     1 + countTotalCalls ch + countTotalCalls rest"

text \<open>
  \<open>findMethodCallsInText\<close>, its loop over the sorted matches, \<open>forEachMatch\<close>, whose
  accumulator \<open>callsAcc\<close> is the list \<open>calls\<close>, and the expansion of one call,
  \<open>expandCall\<close>: the statement \<open>if (definition && !isRecursive) { ... }\<close> of the loop body,
  which returns the children of the call. Opening the document of the text may throw; the
  exceptions of the expansion are caught there and leave the call without children.
  \<open>shift\<close> drops the first child. At depth 0 the loop is left after the first call that
  is pushed.
\<close>

definition mkCallInfo ::
  "callMatch \<Rightarrow> uri \<Rightarrow> range \<Rightarrow> (uri \<times> range) option \<Rightarrow> nat
     \<Rightarrow> InternalMethodCallInfo list \<Rightarrow> bool \<Rightarrow> InternalMethodCallInfo" where
  "mkCallInfo m u callRange definition currentDepth children isRecursive =
     InternalMethodCallInfo (matchName m) u callRange
       (map_option fst definition) (map_option snd definition)
       currentDepth children (definition \<noteq> None) isRecursive"

function
  findMethodCallsInText ::
    "host \<Rightarrow> int \<Rightarrow> string \<Rightarrow> range \<Rightarrow> uri \<Rightarrow> nat \<Rightarrow> string set \<times> cache
       \<Rightarrow> InternalMethodCallInfo list outcome \<times> (string set \<times> cache)"
and
  forEachMatch ::
    "host \<Rightarrow> int \<Rightarrow> document \<Rightarrow> range \<Rightarrow> uri \<Rightarrow> nat \<Rightarrow> callMatch list
       \<Rightarrow> InternalMethodCallInfo list \<Rightarrow> string set \<times> cache
       \<Rightarrow> InternalMethodCallInfo list \<times> (string set \<times> cache)"
and
  expandCall ::
    "host \<Rightarrow> int \<Rightarrow> (uri \<times> range) option \<Rightarrow> string \<Rightarrow> nat \<Rightarrow> string set \<times> cache
       \<Rightarrow> InternalMethodCallInfo list \<times> (string set \<times> cache)"
where
  "findMethodCallsInText h md text baseRange u currentDepth st =
     (if md \<le> int currentDepth then (Returned [], st)
      else
        (case openTextDocument h u of
           None \<Rightarrow> (Threw, st)
         | Some doc \<Rightarrow>
             (case forEachMatch h md doc baseRange u currentDepth
                     (sort_key matchIndex (findAllMethodCallMatches text)) [] st of
                (callsAcc, st') \<Rightarrow> (Returned (removeDuplicateCalls callsAcc), st'))))"
| "forEachMatch h md doc baseRange u currentDepth [] callsAcc st = (callsAcc, st)"
| "forEachMatch h md doc baseRange u currentDepth (m # ms) callsAcc st =
     (if matchName m = [] \<or> isBuiltInOrCommon (matchName m)
      then forEachMatch h md doc baseRange u currentDepth ms callsAcc st
      else
        (case expandCall h md (serviceFindMethodDefinition h (snd st) (matchName m) u)
                (forwardMethodKey (serviceFindMethodDefinition h (snd st) (matchName m) u)
                   (matchName m))
                currentDepth st of
           (children, st1) \<Rightarrow>
             if currentDepth < 1
             then (callsAcc @
                     [mkCallInfo m u (callRangeOf doc baseRange m)
                        (serviceFindMethodDefinition h (snd st) (matchName m) u)
                        currentDepth children
                        (forwardMethodKey
                           (serviceFindMethodDefinition h (snd st) (matchName m) u)
                           (matchName m) \<in> fst st)], st1)
             else forEachMatch h md doc baseRange u currentDepth ms
                    (callsAcc @
                       [mkCallInfo m u (callRangeOf doc baseRange m)
                          (serviceFindMethodDefinition h (snd st) (matchName m) u)
                          currentDepth children
                          (forwardMethodKey
                             (serviceFindMethodDefinition h (snd st) (matchName m) u)
                             (matchName m) \<in> fst st)]) st1))"
| "expandCall h md None methodKey currentDepth st = ([], st)"
| "expandCall h md (Some (defUri, defRange)) methodKey currentDepth st =
     (if methodKey \<in> fst st then ([], st)
      else
        (case openTextDocument h defUri of
           None \<Rightarrow> ([], (insert methodKey (fst st), snd st))
         | Some defDocument \<Rightarrow>
             (case getSymbolsForFile h defUri False (snd st) of
                (symbols, c1) \<Rightarrow>
                  (case findSymbolAtRange symbols defRange of
                     None \<Rightarrow> ([], (insert methodKey (fst st), c1))
                   | Some defMethod \<Rightarrow>
                       (case findMethodCallsInText h md
                               (docGetTextRange defDocument (symRange defMethod))
                               (symRange defMethod) defUri (currentDepth + 1)
                               (insert methodKey (fst st), c1) of
                          (Returned found, st2) \<Rightarrow> (drop 1 found, st2)
                        | (Threw, st2) \<Rightarrow> ([], st2))))))"
  by pat_completeness auto
termination
  by (relation
       "measures
          [\<lambda>x. case x of
                  Inl (h, md, text, baseRange, u, d, st) \<Rightarrow>
                    (if int d < md then 3 * nat (md - int d) + 3 else 0)
                | Inr (Inl (h, md, doc, baseRange, u, d, ms, callsAcc, st)) \<Rightarrow>
                    3 * nat (md - int d) + 2
                | Inr (Inr (h, md, definition, methodKey, d, st)) \<Rightarrow>
                    3 * nat (md - int d) + 1,
           \<lambda>x. case x of
                  Inl (h, md, text, baseRange, u, d, st) \<Rightarrow> 0
                | Inr (Inl (h, md, doc, baseRange, u, d, ms, callsAcc, st)) \<Rightarrow> length ms
                | Inr (Inr (h, md, definition, methodKey, d, st)) \<Rightarrow> 0]")
     auto

declare findMethodCallsInText.simps [simp del]

text \<open>
  The \<open>try\<close> block of \<open>analyzeInternalMethodCalls\<close> and the entry point with its handler.
\<close>

definition analyzeInternalMethodCallsBody ::
  "host \<Rightarrow> symbol \<Rightarrow> uri \<Rightarrow> service \<times> cache
     \<Rightarrow> InternalCallAnalysisResult option outcome \<times> (service \<times> cache)" where
  "analyzeInternalMethodCallsBody h methodSymbol u sc =
     (case openTextDocument h u of
        None \<Rightarrow> (Threw, ((fst sc)\<lparr>processedMethods := {}\<rparr>, snd sc))
      | Some doc \<Rightarrow>
          (case findMethodCallsInText h (maxDepth (fst sc))
                  (docGetTextRange doc (symRange methodSymbol)) (symRange methodSymbol) u 0
                  ({}, snd sc) of
             (Threw, (processed, c')) \<Rightarrow>
               (Threw, ((fst sc)\<lparr>processedMethods := processed\<rparr>, c'))
           | (Returned internalCalls, (processed, c')) \<Rightarrow>
               (Returned (Some \<lparr>rootMethod = symName methodSymbol, rootUri = u,
                                 rootRange = symSelectionRange methodSymbol,
                                 calls = internalCalls,
                                 totalCallsFound = countTotalCalls internalCalls,
                                 analysisDepth = maxDepth (fst sc)\<rparr>),
                ((fst sc)\<lparr>processedMethods := processed\<rparr>, c'))))"

definition analyzeInternalMethodCalls ::
  "host \<Rightarrow> symbol \<Rightarrow> uri \<Rightarrow> service \<times> cache
     \<Rightarrow> InternalCallAnalysisResult option outcome \<times> (service \<times> cache)" where
  "analyzeInternalMethodCalls h methodSymbol u sc =
     (case analyzeInternalMethodCallsBody h methodSymbol u sc of
        (body, sc') \<Rightarrow> (tryCatch body None, sc'))"

section \<open>Trees as sets of nodes\<close>

text \<open>All nodes of a backward tree and of a forward forest, parents before children.\<close>

fun mciNodes :: "MethodCallInfo list \<Rightarrow> MethodCallInfo list" where
  "mciNodes [] = []"
| "mciNodes (MethodCallInfo n u r caller d ch # rest) =
     MethodCallInfo n u r caller d ch # mciNodes ch @ mciNodes rest"

fun imcNodes :: "InternalMethodCallInfo list \<Rightarrow> InternalMethodCallInfo list" where
  "imcNodes [] = []"
| "imcNodes (InternalMethodCallInfo n u r du dr d ch res isrec # rest) =
     InternalMethodCallInfo n u r du dr d ch res isrec # imcNodes ch @ imcNodes rest"

text \<open>
  The key under which the forward analyser records the definition of a resolved node, read
  back from the node, and the nodes that were expanded: resolved and not recursive.
\<close>

definition nodeKey :: "InternalMethodCallInfo \<Rightarrow> string" where
  "nodeKey n =
     forwardMethodKey
       (case imcDefinitionUri n of
          None \<Rightarrow> None
        | Some du \<Rightarrow> (case imcDefinitionRange n of None \<Rightarrow> None | Some dr \<Rightarrow> Some (du, dr)))
       (imcMethodName n)"

definition isExpanded :: "InternalMethodCallInfo \<Rightarrow> bool" where
  "isExpanded n = (imcIsResolved n \<and> \<not> imcIsRecursive n)"

definition expandedKeys :: "InternalMethodCallInfo list \<Rightarrow> string list" where
  "expandedKeys forest = map nodeKey (filter isExpanded (imcNodes forest))"

section \<open>A text document and a one-file workspace for the scenarios\<close>

text \<open>
  A document over a text whose lines end with a line feed: the conversions clamp a
  position to the end of its line and an offset to the end of the text, as the host does.
\<close>

fun positionAtFrom :: "string \<Rightarrow> nat \<Rightarrow> nat \<Rightarrow> nat \<Rightarrow> position" where
  "positionAtFrom [] k l c = Position l c"
| "positionAtFrom (x # xs) k l c =
     (if k = 0 then Position l c
      else if x = CHR 0x0A then positionAtFrom xs (k - 1) (Suc l) 0
      else positionAtFrom xs (k - 1) l (Suc c))"

fun offsetAtFrom :: "string \<Rightarrow> nat \<Rightarrow> nat \<Rightarrow> nat \<Rightarrow> nat" where
  "offsetAtFrom [] l c off = off"
| "offsetAtFrom (x # xs) l c off =
     (if l = 0
      then (if c = 0 \<or> x = CHR 0x0A then off else offsetAtFrom xs 0 (c - 1) (Suc off))
      else if x = CHR 0x0A then offsetAtFrom xs (l - 1) c (Suc off)
      else offsetAtFrom xs l c (Suc off))"

definition textOffsetAt :: "string \<Rightarrow> position \<Rightarrow> nat" where
  "textOffsetAt text p = offsetAtFrom text (line p) (character p) 0"

definition mkDocument :: "int \<Rightarrow> string \<Rightarrow> document" where
  "mkDocument version text =
     \<lparr>docVersion = version,
      docGetText = text,
      docGetTextRange = (\<lambda>r. take (textOffsetAt text (rend r) - textOffsetAt text (rstart r))
                                  (drop (textOffsetAt text (rstart r)) text)),
      docOffsetAt = (\<lambda>p. int (textOffsetAt text p)),
      docPositionAt = (\<lambda>off. positionAtFrom text (nat off) 0 0)\<rparr>"

text \<open>
  A host whose workspace is a list of files, each with a text and the outline that the
  symbol provider reports for it. The definition provider knows nothing.
\<close>

definition workspaceHost :: "(uri \<times> string \<times> symbol list) list \<Rightarrow> host" where
  "workspaceHost files =
     \<lparr>openTextDocument =
        (\<lambda>u. map_option (\<lambda>(text, symbols). mkDocument 1 text) (map_of files u)),
      executeDocumentSymbolProvider =
        (\<lambda>u. map_option (\<lambda>(text, symbols). symbols) (map_of files u)),
      executeDefinitionProvider = (\<lambda>u p. None),
      findFiles = Some (map fst files)\<rparr>"

definition indexFiles :: "host \<Rightarrow> uri list \<Rightarrow> cache \<Rightarrow> cache" where
  \<comment> \<open>the files of a batch, one after the other\<close>
  "indexFiles h files c = foldl (\<lambda>acc file. indexSingleFile h file acc) c files"

definition onLine0 :: "nat \<Rightarrow> nat \<Rightarrow> range" where
  "onLine0 a b = Range (Position 0 a) (Position 0 b)"

section \<open>Predicates on trees\<close>

text \<open>
  For a forward forest: every node lies above the maximal depth and a node marked
  recursive has no children (\<open>nodesOk\<close>); the roots of the forest are at a given depth
  (\<open>depthsAt\<close>); the nodes that were expanded have pairwise different keys, all of which
  entered the set of processed methods between two states of it (\<open>expandedFresh\<close>); a
  node is marked resolved exactly when it carries a definition (\<open>resolvedOk\<close>). For a
  backward forest: no node lies beyond the maximal depth. \<open>survivesFilter\<close> is the
  negation of the test with which the forward loop skips a match.
\<close>

definition nodesOk :: "int \<Rightarrow> InternalMethodCallInfo list \<Rightarrow> bool" where
  "nodesOk md forest =
     (\<forall>n \<in> set (imcNodes forest).
        int (imcDepth n) < md \<and> (imcIsRecursive n \<longrightarrow> imcChildren n = []))"

definition depthsAt :: "nat \<Rightarrow> InternalMethodCallInfo list \<Rightarrow> bool" where
  "depthsAt d forest = (\<forall>n \<in> set forest. imcDepth n = d)"

definition expandedFresh ::
  "string set \<Rightarrow> InternalMethodCallInfo list \<Rightarrow> string set \<Rightarrow> bool" where
  "expandedFresh before forest after =
     (before \<subseteq> after \<and> distinct (expandedKeys forest)
      \<and> set (expandedKeys forest) \<subseteq> after - before)"

definition resolvedOk :: "InternalMethodCallInfo list \<Rightarrow> bool" where
  "resolvedOk forest =
     (\<forall>n \<in> set (imcNodes forest). imcIsResolved n = (imcDefinitionUri n \<noteq> None))"

definition mciDepthsWithin :: "int \<Rightarrow> MethodCallInfo list \<Rightarrow> bool" where
  "mciDepthsWithin md forest = (\<forall>n \<in> set (mciNodes forest). int (mciDepth n) \<le> md)"

definition survivesFilter :: "callMatch \<Rightarrow> bool" where
  "survivesFilter m = (\<not> (matchName m = [] \<or> isBuiltInOrCommon (matchName m)))"

section \<open>Scenarios\<close>

text \<open>A function nested in a function, and a reference inside the inner one.\<close>

definition innerSymbol :: symbol where
  "innerSymbol =
     DocumentSymbol ''inner'' KFunction (Range (Position 2 2) (Position 5 3))
       (Range (Position 2 11) (Position 2 16)) []"

definition outerSymbol :: symbol where
  "outerSymbol =
     DocumentSymbol ''outer'' KFunction (Range (Position 0 0) (Position 9 1))
       (Range (Position 0 9) (Position 0 14)) [innerSymbol]"

definition nestedReference :: range where
  "nestedReference = Range (Position 3 4) (Position 3 10)"

definition moduleLevelReference :: range where
  "moduleLevelReference = Range (Position 12 0) (Position 12 5)"

text \<open>
  Two files that both define \<open>helper\<close>, one in the directory \<open>/z\<close> and one in \<open>/a/bc\<close>,
  indexed in this order; the context file of the lookup is \<open>/a/b/x.ts\<close>.
\<close>

definition helperText :: string where
  "helperText = ''function helper() { }''"

definition helperSymbols :: "symbol list" where
  "helperSymbols = [DocumentSymbol ''helper'' KFunction (onLine0 0 21) (onLine0 9 15) []]"

definition helperHost :: host where
  "helperHost =
     workspaceHost [(Uri ''/z/y.ts'', helperText, helperSymbols),
                    (Uri ''/a/bc/w.ts'', helperText, helperSymbols)]"

definition helperCache :: cache where
  "helperCache = indexFiles helperHost [Uri ''/z/y.ts'', Uri ''/a/bc/w.ts''] emptyCache"

text \<open>
  The three methods of the concrete scenario: \<open>open\<close> calls nothing, \<open>openNow\<close> calls
  \<open>open\<close>, \<open>quickStart\<close> calls \<open>openNow\<close>.
\<close>

definition openText :: string where
  "openText =
     ''class K { open() { } openNow() { this.open(); } quickStart() { this.openNow(); } }''"

definition openFile :: uri where
  "openFile = Uri ''/w/k.ts''"

definition openSymbol :: symbol where
  "openSymbol = DocumentSymbol ''open'' KMethod (onLine0 10 20) (onLine0 10 14) []"

definition openSymbols :: "symbol list" where
  "openSymbols =
     [DocumentSymbol ''K'' KClass (onLine0 0 82) (onLine0 6 7)
        [openSymbol,
         DocumentSymbol ''openNow'' KMethod (onLine0 21 47) (onLine0 21 28) [],
         DocumentSymbol ''quickStart'' KMethod (onLine0 48 80) (onLine0 48 58) []]]"

definition openHost :: host where
  "openHost = workspaceHost [(openFile, openText, openSymbols)]"

definition openCache :: cache where
  "openCache = indexFiles openHost [openFile] emptyCache"

text \<open>Two functions that call each other.\<close>

definition mutualText :: string where
  "mutualText = ''function methodA() { methodB(); } function methodB() { methodA(); }''"

definition mutualFile :: uri where
  "mutualFile = Uri ''/w/ab.ts''"

definition symbolA :: symbol where
  "symbolA = DocumentSymbol ''methodA'' KFunction (onLine0 0 33) (onLine0 9 16) []"

definition symbolB :: symbol where
  "symbolB = DocumentSymbol ''methodB'' KFunction (onLine0 34 67) (onLine0 43 50) []"

definition mutualHost :: host where
  "mutualHost = workspaceHost [(mutualFile, mutualText, [symbolA, symbolB])]"

definition mutualCache :: cache where
  "mutualCache = indexFiles mutualHost [mutualFile] emptyCache"







text \<open>
  A function \<open>top\<close> that calls \<open>left\<close> and \<open>right\<close>, both of which call \<open>leaf\<close>: the
  second call of \<open>leaf\<close> is reached on the path through \<open>right\<close>, on which \<open>leaf\<close> was
  not visited before.
\<close>

definition diamondText :: string where
  "diamondText =
     ''function top() { left(); right(); } function left() { leaf(); } function right() { leaf(); } function leaf() { }''"

definition diamondFile :: uri where
  "diamondFile = Uri ''/w/d.ts''"

definition topSymbol :: symbol where
  "topSymbol = DocumentSymbol ''top'' KFunction (onLine0 0 35) (onLine0 9 12) []"

definition diamondSymbols :: "symbol list" where
  "diamondSymbols =
     [topSymbol,
      DocumentSymbol ''left'' KFunction (onLine0 36 63) (onLine0 45 49) [],
      DocumentSymbol ''right'' KFunction (onLine0 64 92) (onLine0 73 78) [],
      DocumentSymbol ''leaf'' KFunction (onLine0 93 112) (onLine0 102 106) []]"

definition diamondHost :: host where
  "diamondHost = workspaceHost [(diamondFile, diamondText, diamondSymbols)]"

definition diamondCache :: cache where
  "diamondCache = indexFiles diamondHost [diamondFile] emptyCache"

text \<open>A host on which no document opens.\<close>

definition closedHost :: host where
  "closedHost = workspaceHost []"

text \<open>Values that occur when the analyses run on the scenarios.\<close>

definition mutualDoc :: document where
  "mutualDoc = mkDocument 1 mutualText"

definition textA :: string where
  "textA = ''function methodA() { methodB(); }''"

definition textB :: string where
  "textB = ''function methodB() { methodA(); }''"

definition keyA :: string where
  "keyA = ''file:///w/ab.ts:0:9''"

definition keyB :: string where
  "keyB = ''file:///w/ab.ts:0:43''"

definition secondA :: InternalMethodCallInfo where
  "secondA =
     InternalMethodCallInfo ''methodA'' mutualFile (onLine0 55 62)
       (Some mutualFile) (Some (onLine0 9 16)) 2 [] True True"

definition mutualCalls :: "InternalMethodCallInfo list" where
  "mutualCalls =
     [InternalMethodCallInfo ''methodA'' mutualFile (onLine0 9 16)
        (Some mutualFile) (Some (onLine0 9 16)) 0
        [InternalMethodCallInfo ''methodB'' mutualFile (onLine0 21 28)
           (Some mutualFile) (Some (onLine0 43 50)) 1 [secondA] True False]
        True False]"




definition openRoot :: MethodCallInfo where
  "openRoot = MethodCallInfo ''open'' openFile (onLine0 10 14) None 0 []"

definition openNowNode :: MethodCallInfo where
  "openNowNode = MethodCallInfo ''openNow'' openFile (onLine0 21 28) (Some ''open'') 1 []"

definition openTree :: MethodCallInfo where
  "openTree = MethodCallInfo ''open'' openFile (onLine0 10 14) None 0 [openNowNode]"

definition openKey :: string where
  "openKey = ''file:///w/k.ts:0:10:open''"

definition openNowKey :: string where
  "openNowKey = ''file:///w/k.ts:0:21:openNow''"

definition leafUnderRight :: InternalMethodCallInfo where
  "leafUnderRight =
     InternalMethodCallInfo ''leaf'' diamondFile (onLine0 83 87)
       (Some diamondFile) (Some (onLine0 102 106)) 2 [] True True"

definition diamondCalls :: "InternalMethodCallInfo list" where
  "diamondCalls =
     [InternalMethodCallInfo ''top'' diamondFile (onLine0 9 12)
        (Some diamondFile) (Some (onLine0 9 12)) 0
        [InternalMethodCallInfo ''left'' diamondFile (onLine0 17 21)
           (Some diamondFile) (Some (onLine0 45 49)) 1
           [InternalMethodCallInfo ''leaf'' diamondFile (onLine0 54 58)
              (Some diamondFile) (Some (onLine0 102 106)) 2 [] True False]
           True False,
         InternalMethodCallInfo ''right'' diamondFile (onLine0 25 30)
           (Some diamondFile) (Some (onLine0 73 78)) 1 [leafUnderRight] True False]
        True False]"

section \<open>Properties\<close>

lemma find_append_cases:
  "List.find P (xs @ ys) = (case List.find P xs of Some x \<Rightarrow> Some x | None \<Rightarrow> List.find P ys)"
  by (induction xs) auto

lemma findContainingMethod_preorder:
  "findContainingMethod r syms =
     List.find (\<lambda>s. isMethodSymbol s \<and> rangeContains (symRange s) r) (preorder syms)"
proof (induction r syms rule: findContainingMethod.induct)
  case (1 r)
  show ?case by simp
next
  case (2 r n k rg sel ch rest)
  show ?case
  proof (cases "(k = KMethod \<or> k = KFunction \<or> k = KConstructor) \<and> rangeContains rg r")
    case True
    then show ?thesis by (auto simp: isMethodSymbol_def)
  next
    case False
    with 2 show ?thesis
      by (auto simp: isMethodSymbol_def find_append_cases split: option.splits)
  qed
qed

subsection \<open>The caller of a reference (C3)\<close>

lemma findMethodReferencesWorkspace_fields:
  "findMethodReferencesWorkspace h md callInfo d st = (callInfo', st') \<Longrightarrow>
     mciMethodName callInfo' = mciMethodName callInfo \<and> mciUri callInfo' = mciUri callInfo
     \<and> mciRange callInfo' = mciRange callInfo
     \<and> mciCallerMethodName callInfo' = mciCallerMethodName callInfo
     \<and> mciDepth callInfo' = mciDepth callInfo"
  by (subst (asm) findMethodReferencesWorkspace.simps)
     (auto split: if_splits prod.splits)

text \<open>
  C3, as the code has it. The caller that \<open>findContainingMethod\<close> attributes to a
  reference is the first symbol, in pre-order of the file's symbol tree, that is a method,
  function or constructor and whose range contains the reference: for nested methods this
  is the outermost one, since a symbol is tested before its children. A reference with no
  such symbol is skipped by the loop over the locations and adds no child; a reference
  with a caller that is not yet among the children adds one child, named after the caller,
  located at the caller's selection range, one level below the node under expansion.
\<close>

theorem findContainingMethod_first_in_preorder:
  "findContainingMethod r symbols
     = List.find (\<lambda>s. isMethodSymbol s \<and> rangeContains (symRange s) r) (preorder symbols)
   \<and> (findContainingMethod (locRange location) symbols = None \<longrightarrow>
        forEachLocation h md callInfo d u symbols (location # rest) children st
          = forEachLocation h md callInfo d u symbols rest children st)
   \<and> (findContainingMethod (locRange location) symbols = Some callingMethod
        \<and> existingChild children callingMethod u = None \<longrightarrow>
        (\<exists>child st'.
           forEachLocation h md callInfo d u symbols (location # rest) children st
             = forEachLocation h md callInfo d u symbols rest (children @ [child]) st'
           \<and> mciMethodName child = symName callingMethod \<and> mciUri child = u
           \<and> mciRange child = symSelectionRange callingMethod
           \<and> mciCallerMethodName child = Some (mciMethodName callInfo)
           \<and> mciDepth child = d + 1))"
proof (intro conjI impI)
  show "findContainingMethod r symbols
     = List.find (\<lambda>s. isMethodSymbol s \<and> rangeContains (symRange s) r) (preorder symbols)"
    by (rule findContainingMethod_preorder)
next
  assume "findContainingMethod (locRange location) symbols = None"
  then show "forEachLocation h md callInfo d u symbols (location # rest) children st
          = forEachLocation h md callInfo d u symbols rest children st"
    by simp
next
  assume a: "findContainingMethod (locRange location) symbols = Some callingMethod
        \<and> existingChild children callingMethod u = None"
  let ?node = "MethodCallInfo (symName callingMethod) u (symSelectionRange callingMethod)
                 (Some (mciMethodName callInfo)) (d + 1) []"
  obtain child st' where r: "findMethodReferencesWorkspace h md ?node (d + 1) st = (child, st')"
    by (cases "findMethodReferencesWorkspace h md ?node (d + 1) st") blast
  have f: "mciMethodName child = symName callingMethod \<and> mciUri child = u
           \<and> mciRange child = symSelectionRange callingMethod
           \<and> mciCallerMethodName child = Some (mciMethodName callInfo)
           \<and> mciDepth child = d + 1"
    using findMethodReferencesWorkspace_fields [OF r] by simp
  have "forEachLocation h md callInfo d u symbols (location # rest) children st
          = forEachLocation h md callInfo d u symbols rest (children @ [child]) st'"
    using a r by simp
  with f show "\<exists>child st'.
           forEachLocation h md callInfo d u symbols (location # rest) children st
             = forEachLocation h md callInfo d u symbols rest (children @ [child]) st'
           \<and> mciMethodName child = symName callingMethod \<and> mciUri child = u
           \<and> mciRange child = symSelectionRange callingMethod
           \<and> mciCallerMethodName child = Some (mciMethodName callInfo)
           \<and> mciDepth child = d + 1"
    by blast
qed

theorem findContainingMethod_first_in_preorder_witness:
  "findContainingMethod nestedReference [outerSymbol] = Some outerSymbol
   \<and> List.find (\<lambda>s. isMethodSymbol s \<and> rangeContains (symRange s) nestedReference)
         (preorder [outerSymbol]) = Some outerSymbol
   \<and> findContainingMethod moduleLevelReference [outerSymbol] = None
   \<and> forEachLocation closedHost 3
         (MethodCallInfo ''inner'' openFile (symSelectionRange innerSymbol) None 0 []) 0 openFile
         [outerSymbol] [Location openFile moduleLevelReference] [] ({}, emptyCache)
       = ([], ({}, emptyCache))
   \<and> (\<exists>child st'.
         forEachLocation closedHost 3
           (MethodCallInfo ''inner'' openFile (symSelectionRange innerSymbol) None 0 []) 0 openFile
           [outerSymbol] [Location openFile nestedReference] [] ({}, emptyCache)
         = ([child], st')
         \<and> mciMethodName child = ''outer'' \<and> mciDepth child = 1)"
proof -
  have some: "findContainingMethod nestedReference [outerSymbol] = Some outerSymbol"
    by (simp add: outerSymbol_def innerSymbol_def nestedReference_def rangeContains_def
        containsPosition_def isBeforeOrEqual_def)
  have none: "findContainingMethod moduleLevelReference [outerSymbol] = None"
    by (simp add: outerSymbol_def innerSymbol_def moduleLevelReference_def rangeContains_def
        containsPosition_def isBeforeOrEqual_def)
  have fresh: "existingChild [] outerSymbol openFile = None"
    by (simp add: existingChild_def)
  note a = findContainingMethod_first_in_preorder
             [where r = nestedReference and symbols = "[outerSymbol]"
                and location = "Location openFile moduleLevelReference"
                and h = closedHost and md = 3 and d = 0 and u = openFile and rest = "[]"
                and children = "[]" and st = "({}, emptyCache)"
                and callInfo = "MethodCallInfo ''inner'' openFile
                                  (symSelectionRange innerSymbol) None 0 []"]
  note b = findContainingMethod_first_in_preorder
             [where r = nestedReference and symbols = "[outerSymbol]"
                and location = "Location openFile nestedReference"
                and callingMethod = outerSymbol
                and h = closedHost and md = 3 and d = 0 and u = openFile and rest = "[]"
                and children = "[]" and st = "({}, emptyCache)"
                and callInfo = "MethodCallInfo ''inner'' openFile
                                  (symSelectionRange innerSymbol) None 0 []"]
  have p1: "List.find (\<lambda>s. isMethodSymbol s \<and> rangeContains (symRange s) nestedReference)
              (preorder [outerSymbol]) = Some outerSymbol"
    using a some by simp
  have p2: "forEachLocation closedHost 3
              (MethodCallInfo ''inner'' openFile (symSelectionRange innerSymbol) None 0 []) 0
              openFile [outerSymbol] [Location openFile moduleLevelReference] []
              ({}, emptyCache) = ([], ({}, emptyCache))"
    using a none by simp
  have p3: "\<exists>child st'.
         forEachLocation closedHost 3
           (MethodCallInfo ''inner'' openFile (symSelectionRange innerSymbol) None 0 []) 0 openFile
           [outerSymbol] [Location openFile nestedReference] [] ({}, emptyCache)
         = ([child], st')
         \<and> mciMethodName child = ''outer'' \<and> mciDepth child = 1"
  proof -
    have some': "findContainingMethod (locRange (Location openFile nestedReference))
                   [outerSymbol] = Some outerSymbol"
      using some by simp
    from b some' fresh obtain child st' where
      c: "forEachLocation closedHost 3
            (MethodCallInfo ''inner'' openFile (symSelectionRange innerSymbol) None 0 []) 0
            openFile [outerSymbol] [Location openFile nestedReference] [] ({}, emptyCache)
          = forEachLocation closedHost 3
              (MethodCallInfo ''inner'' openFile (symSelectionRange innerSymbol) None 0 []) 0
              openFile [outerSymbol] [] ([] @ [child]) st'"
      and n: "mciMethodName child = symName outerSymbol"
      and d: "mciDepth child = 0 + 1"
      by blast
    have nm: "symName outerSymbol = ''outer''"
      by (simp add: outerSymbol_def)
    have "forEachLocation closedHost 3
            (MethodCallInfo ''inner'' openFile (symSelectionRange innerSymbol) None 0 []) 0
            openFile [outerSymbol] [Location openFile nestedReference] [] ({}, emptyCache)
          = ([child], st')"
      unfolding c by simp
    with n d nm show ?thesis by auto
  qed
  from some p1 none p2 p3 show ?thesis by blast
qed

text \<open>
  C3, as the claim states it, fails: for a reference inside a function nested in another
  function, the code attributes the outer function, although the inner one is the
  smallest enclosing symbol.
\<close>

theorem findContainingMethod_not_smallest:
  "findContainingMethod nestedReference [outerSymbol] = Some outerSymbol
   \<and> smallestEnclosingMethod nestedReference [outerSymbol] = Some innerSymbol
   \<and> innerSymbol \<noteq> outerSymbol
   \<and> rangeContains (symRange innerSymbol) nestedReference
   \<and> rangeContains (symRange outerSymbol) (symRange innerSymbol)"
  by (simp add: outerSymbol_def innerSymbol_def nestedReference_def rangeContains_def
      containsPosition_def isBeforeOrEqual_def)

subsection \<open>Resolving a definition among several candidates (C4)\<close>

text \<open>
  C4. With the candidates \<open>/z/y.ts\<close> and \<open>/a/bc/w.ts\<close> (in this order) and the context
  file \<open>/a/b/x.ts\<close>, no candidate is in the context file and none lies under its
  directory \<open>/a/b\<close>, so the first candidate is due. \<open>findMethodDefinition\<close> returns the
  second: its test is a prefix test on the path strings, which \<open>/a/bc/w.ts\<close> passes for
  \<open>/a/b\<close>.
\<close>

theorem findMethodDefinition_prefix_sibling:
  "map cmiUri (findMethodsByName helperCache ''helper'') = [Uri ''/z/y.ts'', Uri ''/a/bc/w.ts'']
   \<and> map_option cmiUri (findMethodDefinition helperCache ''helper'' (Some (Uri ''/a/b/x.ts'')))
       = Some (Uri ''/a/bc/w.ts'')
   \<and> map_option cmiUri (resolveDefinition_spec helperCache ''helper'' (Some (Uri ''/a/b/x.ts'')))
       = Some (Uri ''/z/y.ts'')"
  by code_simp

subsection \<open>Indexing, invalidating and indexing again (C6)\<close>

lemma uriToString_eq [simp]: "uriToString a = uriToString b \<longleftrightarrow> a = b"
  by (cases a; cases b) (simp add: uriToString_def)

lemma lookup_remove:
  "lookupMethods (removeMethodsFromCache u m) n = filter (\<lambda>i. cmiUri i \<noteq> u) (lookupMethods m n)"
  by (simp add: lookupMethods_def removeMethodsFromCache_def Let_def split: option.splits)

lemma extract_Cons:
  "extractMethodsFromSymbols u (DocumentSymbol n k rg sel ch # rest) m =
     extractMethodsFromSymbols u rest
       (extractMethodsFromSymbols u ch
          (if isMethodSymbol (DocumentSymbol n k rg sel ch)
           then m(n \<mapsto> lookupMethods m n @
                     [\<lparr>cmiMethodName = n, cmiUri = u,
                       cmiSymbol = DocumentSymbol n k rg sel ch, cmiFilePath = fsPath u\<rparr>])
           else m))"
  by (simp add: Let_def lookupMethods_def)

lemma lookup_extract:
  "lookupMethods (extractMethodsFromSymbols u syms m) x
     = lookupMethods m x @ contributedDefinitions u syms x"
proof (induction u syms m rule: extractMethodsFromSymbols.induct)
  case (1 u m)
  show ?case by (simp add: contributedDefinitions_def)
next
  case (2 u n k rg sel ch rest m)
  let ?s = "DocumentSymbol n k rg sel ch"
  let ?info = "\<lparr>cmiMethodName = n, cmiUri = u, cmiSymbol = ?s, cmiFilePath = fsPath u\<rparr>"
  let ?m1 = "if isMethodSymbol ?s then m(n \<mapsto> lookupMethods m n @ [?info]) else m"
  have ih1: "lookupMethods (extractMethodsFromSymbols u ch ?m1) x
               = lookupMethods ?m1 x @ contributedDefinitions u ch x"
    using "2.IH"(1) [OF refl] by (simp only: Let_def lookupMethods_def)
  have ih2: "lookupMethods (extractMethodsFromSymbols u rest (extractMethodsFromSymbols u ch ?m1)) x
               = lookupMethods (extractMethodsFromSymbols u ch ?m1) x
                   @ contributedDefinitions u rest x"
    using "2.IH"(2) [OF refl] by (simp only: Let_def lookupMethods_def)
  have m1: "lookupMethods ?m1 x
              = lookupMethods m x @ (if isMethodSymbol ?s \<and> n = x then [?info] else [])"
    by (simp add: lookupMethods_def isMethodSymbol_def)
  have c: "contributedDefinitions u (?s # rest) x
             = (if isMethodSymbol ?s \<and> n = x then [?info] else [])
                 @ contributedDefinitions u ch x @ contributedDefinitions u rest x"
    by (auto simp: contributedDefinitions_def isMethodSymbol_def)
  show ?case
    unfolding extract_Cons ih2 ih1 m1 c by simp
qed

lemma remove_extract:
  "removeMethodsFromCache u (extractMethodsFromSymbols u syms m) = removeMethodsFromCache u m"
proof (induction u syms m rule: extractMethodsFromSymbols.induct)
  case (1 u m)
  show ?case by simp
next
  case (2 u n k rg sel ch rest m)
  let ?s = "DocumentSymbol n k rg sel ch"
  let ?info = "\<lparr>cmiMethodName = n, cmiUri = u, cmiSymbol = ?s, cmiFilePath = fsPath u\<rparr>"
  let ?m1 = "if isMethodSymbol ?s then m(n \<mapsto> lookupMethods m n @ [?info]) else m"
  have ih1: "removeMethodsFromCache u (extractMethodsFromSymbols u ch ?m1)
               = removeMethodsFromCache u ?m1"
    using "2.IH"(1) [OF refl] by (simp only: Let_def lookupMethods_def)
  have ih2: "removeMethodsFromCache u
               (extractMethodsFromSymbols u rest (extractMethodsFromSymbols u ch ?m1))
               = removeMethodsFromCache u (extractMethodsFromSymbols u ch ?m1)"
    using "2.IH"(2) [OF refl] by (simp only: Let_def lookupMethods_def)
  have upd: "removeMethodsFromCache u (m(n \<mapsto> lookupMethods m n @ [?info]))
               = removeMethodsFromCache u m"
    by (rule ext)
       (simp add: removeMethodsFromCache_def lookupMethods_def Let_def split: option.splits)
  have m1: "removeMethodsFromCache u ?m1 = removeMethodsFromCache u m"
    using upd by (cases "isMethodSymbol ?s") simp_all
  show ?case
    unfolding extract_Cons ih2 ih1 m1 by (rule refl)
qed

lemma remove_idem:
  "removeMethodsFromCache u (removeMethodsFromCache u m) = removeMethodsFromCache u m"
  by (rule ext) (simp add: removeMethodsFromCache_def Let_def split: option.splits)

lemma helperHost_open:
  "openTextDocument helperHost (Uri ''/z/y.ts'') = Some (mkDocument 1 helperText)"
  by (simp add: helperHost_def workspaceHost_def)

lemma helperHost_symbols:
  "executeDocumentSymbolProvider helperHost (Uri ''/z/y.ts'') = Some helperSymbols"
  by (simp add: helperHost_def workspaceHost_def)

lemma cacheConsistent_empty: "cacheConsistent emptyCache"
  by (simp add: cacheConsistent_def emptyCache_def lookupMethods_def)

lemma contributed_uri: "i \<in> set (contributedDefinitions f symbols n) \<Longrightarrow> cmiUri i = f"
  by (auto simp: contributedDefinitions_def)

lemma cacheConsistent_index:
  assumes "cacheConsistent c"
  shows "cacheConsistent (indexSingleFile h f c)"
proof (cases "openTextDocument h f")
  case None
  with assms show ?thesis by (simp add: indexSingleFile_def)
next
  case (Some doc)
  show ?thesis
  proof (cases "executeDocumentSymbolProvider h f")
    case None
    with Some assms show ?thesis by (simp add: indexSingleFile_def)
  next
    case s: (Some symbols)
    have m: "methodNameCache (indexSingleFile h f c)
               = extractMethodsFromSymbols f symbols
                   (removeMethodsFromCache f (methodNameCache c))"
      using Some s by (simp add: indexSingleFile_def buildMethodNameCacheForFile_def)
    have sc: "\<And>k. symbolCache (indexSingleFile h f c) k \<noteq> None
                  \<longleftrightarrow> k = uriToString f \<or> symbolCache c k \<noteq> None"
      using Some s by (simp add: indexSingleFile_def)
    show ?thesis
      unfolding cacheConsistent_def m lookup_extract lookup_remove sc
      using assms contributed_uri [of _ f symbols]
      by (auto simp: cacheConsistent_def)
  qed
qed

lemma cacheConsistent_invalidate:
  assumes "cacheConsistent c"
  shows "cacheConsistent (invalidateFileCache f c)"
proof (cases "symbolCache c (uriToString f)")
  case None
  with assms show ?thesis by (simp add: invalidateFileCache_def)
next
  case (Some entry)
  have m: "methodNameCache (invalidateFileCache f c)
             = removeMethodsFromCache f (methodNameCache c)"
    using Some by (simp add: invalidateFileCache_def)
  have sc: "\<And>k. symbolCache (invalidateFileCache f c) k \<noteq> None
                \<longleftrightarrow> k \<noteq> uriToString f \<and> symbolCache c k \<noteq> None"
    using Some by (simp add: invalidateFileCache_def)
  show ?thesis
    unfolding cacheConsistent_def m lookup_remove sc
    using assms by (auto simp: cacheConsistent_def)
qed

lemma invalidate_removes_all:
  assumes "cacheConsistent c"
    and "i \<in> set (findMethodsByName (invalidateFileCache f c) methodName)"
  shows "cmiUri i \<noteq> f"
proof (cases "symbolCache c (uriToString f)")
  case None
  with assms(2) have "i \<in> set (lookupMethods (methodNameCache c) methodName)"
    by (simp add: invalidateFileCache_def findMethodsByName_def lookupMethods_def)
  with assms(1) have "symbolCache c (uriToString (cmiUri i)) \<noteq> None"
    by (auto simp: cacheConsistent_def)
  with None show ?thesis by auto
next
  case (Some entry)
  have m: "methodNameCache (invalidateFileCache f c)
             = removeMethodsFromCache f (methodNameCache c)"
    using Some by (simp add: invalidateFileCache_def)
  have "i \<in> set (lookupMethods (removeMethodsFromCache f (methodNameCache c)) methodName)"
    using assms(2) by (simp add: findMethodsByName_def lookupMethods_def m)
  then show ?thesis
    unfolding lookup_remove by simp
qed

lemma invalidate_after_index_removes_all:
  assumes "cacheConsistent c"
    and "i \<in> set (findMethodsByName (invalidateFileCache f (indexSingleFile h f c)) methodName)"
  shows "cmiUri i \<noteq> f"
  using invalidate_removes_all [OF cacheConsistent_index [OF assms(1)] assms(2)] .

lemma invalidate_roundtrip_indexed:
  assumes "openTextDocument h f = Some doc"
    and "executeDocumentSymbolProvider h f = Some symbols"
  shows "findMethodsByName (indexSingleFile h f c) methodName
           = filter (\<lambda>i. cmiUri i \<noteq> f) (findMethodsByName c methodName)
               @ contributedDefinitions f symbols methodName
       \<and> findMethodsByName (invalidateFileCache f (indexSingleFile h f c)) methodName
           = filter (\<lambda>i. cmiUri i \<noteq> f) (findMethodsByName c methodName)
       \<and> (\<forall>i \<in> set (findMethodsByName (invalidateFileCache f (indexSingleFile h f c)) methodName).
             cmiUri i \<noteq> f)
       \<and> ((\<forall>i \<in> set (findMethodsByName (indexSingleFile h f c) methodName). cmiUri i = f)
            \<longrightarrow> findMethodsByName (invalidateFileCache f (indexSingleFile h f c)) methodName = [])
       \<and> symbolCache (invalidateFileCache f (indexSingleFile h f c)) (uriToString f) = None
       \<and> indexSingleFile h f (invalidateFileCache f (indexSingleFile h f c))
           = indexSingleFile h f c"
proof -
  let ?c1 = "indexSingleFile h f c"
  let ?c2 = "invalidateFileCache f ?c1"
  have fm: "\<And>c'. findMethodsByName c' methodName = lookupMethods (methodNameCache c') methodName"
    by (simp add: findMethodsByName_def lookupMethods_def)
  have m1: "methodNameCache ?c1
              = extractMethodsFromSymbols f symbols (removeMethodsFromCache f (methodNameCache c))"
    using assms by (simp add: indexSingleFile_def buildMethodNameCacheForFile_def)
  have s1: "symbolCache ?c1 (uriToString f) \<noteq> None"
    using assms by (simp add: indexSingleFile_def)
  have m2: "methodNameCache ?c2 = removeMethodsFromCache f (methodNameCache c)"
    using s1 by (simp add: invalidateFileCache_def m1 remove_extract remove_idem)
  have l1: "findMethodsByName ?c1 methodName
              = filter (\<lambda>i. cmiUri i \<noteq> f) (findMethodsByName c methodName)
                  @ contributedDefinitions f symbols methodName"
    by (simp only: fm m1 lookup_extract lookup_remove)
  have l2: "findMethodsByName ?c2 methodName
              = filter (\<lambda>i. cmiUri i \<noteq> f) (findMethodsByName c methodName)"
    by (simp only: fm m2 lookup_remove)
  have l3: "\<forall>i \<in> set (findMethodsByName ?c2 methodName). cmiUri i \<noteq> f"
    unfolding l2 by simp
  have l4: "(\<forall>i \<in> set (findMethodsByName ?c1 methodName). cmiUri i = f)
              \<longrightarrow> findMethodsByName ?c2 methodName = []"
  proof
    assume a: "\<forall>i \<in> set (findMethodsByName ?c1 methodName). cmiUri i = f"
    have "\<forall>i \<in> set (findMethodsByName c methodName). \<not> cmiUri i \<noteq> f"
    proof
      fix i
      assume i: "i \<in> set (findMethodsByName c methodName)"
      show "\<not> cmiUri i \<noteq> f"
      proof
        assume n: "cmiUri i \<noteq> f"
        with i have "i \<in> set (findMethodsByName ?c1 methodName)"
          unfolding l1 by simp
        with a have "cmiUri i = f" by blast
        with n show False by simp
      qed
    qed
    then show "findMethodsByName ?c2 methodName = []"
      unfolding l2 by (simp add: filter_empty_conv)
  qed
  have l5: "symbolCache ?c2 (uriToString f) = None"
    using s1 by (simp add: invalidateFileCache_def)
  have sc2: "(symbolCache ?c2)(uriToString f \<mapsto>
                \<lparr>csiUri = f, csiSymbols = symbols, csiVersion = docVersion doc\<rparr>)
             = symbolCache ?c1"
    using assms by (simp add: invalidateFileCache_def indexSingleFile_def)
  have l6: "indexSingleFile h f ?c2 = ?c1"
  proof -
    have r: "methodReferenceCache ?c2 = methodReferenceCache ?c1"
      by (simp add: invalidateFileCache_def)
    have "indexSingleFile h f ?c2
            = ?c2\<lparr>symbolCache := symbolCache ?c1,
                   methodNameCache := methodNameCache ?c1\<rparr>"
      using assms
      by (simp add: indexSingleFile_def [of h f ?c2] buildMethodNameCacheForFile_def sc2 m2 m1
          remove_idem)
    with r show ?thesis by simp
  qed
  from l1 l2 l3 l4 l5 l6 show ?thesis by blast
qed

text \<open>
  C6. When the document of a file opens and the symbol provider answers, indexing the
  file leaves under every name the records of the other files followed by the records the
  file contributes; invalidating the file then leaves exactly the records of the other
  files, so no record of the file remains, a name that only the file defined is looked up
  as the empty list, and the symbol entry of the file is gone; indexing the file once more
  gives back the cache as it was after the first indexing. Whether or not the indexing
  succeeds, in a cache whose two maps agree no record of the file remains after indexing
  and invalidating it, and the maps still agree.
\<close>

theorem invalidate_roundtrip:
  "(openTextDocument h f = Some doc \<and> executeDocumentSymbolProvider h f = Some symbols
      \<longrightarrow>
        findMethodsByName (indexSingleFile h f c) methodName
           = filter (\<lambda>i. cmiUri i \<noteq> f) (findMethodsByName c methodName)
               @ contributedDefinitions f symbols methodName
       \<and> findMethodsByName (invalidateFileCache f (indexSingleFile h f c)) methodName
           = filter (\<lambda>i. cmiUri i \<noteq> f) (findMethodsByName c methodName)
       \<and> (\<forall>i \<in> set (findMethodsByName (invalidateFileCache f (indexSingleFile h f c)) methodName).
             cmiUri i \<noteq> f)
       \<and> ((\<forall>i \<in> set (findMethodsByName (indexSingleFile h f c) methodName). cmiUri i = f)
            \<longrightarrow> findMethodsByName (invalidateFileCache f (indexSingleFile h f c)) methodName = [])
       \<and> symbolCache (invalidateFileCache f (indexSingleFile h f c)) (uriToString f) = None
       \<and> indexSingleFile h f (invalidateFileCache f (indexSingleFile h f c))
           = indexSingleFile h f c)
   \<and> (cacheConsistent c \<longrightarrow>
        (\<forall>i \<in> set (findMethodsByName (invalidateFileCache f (indexSingleFile h f c))
                         methodName). cmiUri i \<noteq> f)
        \<and> cacheConsistent (invalidateFileCache f (indexSingleFile h f c)))"
proof (rule conjI)
  show "openTextDocument h f = Some doc \<and> executeDocumentSymbolProvider h f = Some symbols
      \<longrightarrow>
        findMethodsByName (indexSingleFile h f c) methodName
           = filter (\<lambda>i. cmiUri i \<noteq> f) (findMethodsByName c methodName)
               @ contributedDefinitions f symbols methodName
       \<and> findMethodsByName (invalidateFileCache f (indexSingleFile h f c)) methodName
           = filter (\<lambda>i. cmiUri i \<noteq> f) (findMethodsByName c methodName)
       \<and> (\<forall>i \<in> set (findMethodsByName (invalidateFileCache f (indexSingleFile h f c)) methodName).
             cmiUri i \<noteq> f)
       \<and> ((\<forall>i \<in> set (findMethodsByName (indexSingleFile h f c) methodName). cmiUri i = f)
            \<longrightarrow> findMethodsByName (invalidateFileCache f (indexSingleFile h f c)) methodName = [])
       \<and> symbolCache (invalidateFileCache f (indexSingleFile h f c)) (uriToString f) = None
       \<and> indexSingleFile h f (invalidateFileCache f (indexSingleFile h f c))
           = indexSingleFile h f c"
    by (intro impI, elim conjE, rule invalidate_roundtrip_indexed)
next
  show "cacheConsistent c \<longrightarrow>
        (\<forall>i \<in> set (findMethodsByName (invalidateFileCache f (indexSingleFile h f c))
                         methodName). cmiUri i \<noteq> f)
        \<and> cacheConsistent (invalidateFileCache f (indexSingleFile h f c))"
  proof (rule impI)
    assume k: "cacheConsistent c"
    have "\<forall>i \<in> set (findMethodsByName (invalidateFileCache f (indexSingleFile h f c))
                         methodName). cmiUri i \<noteq> f"
      using invalidate_after_index_removes_all [OF k] by blast
    moreover have "cacheConsistent (invalidateFileCache f (indexSingleFile h f c))"
      using k by (intro cacheConsistent_invalidate cacheConsistent_index)
    ultimately show "(\<forall>i \<in> set (findMethodsByName
                                   (invalidateFileCache f (indexSingleFile h f c))
                                   methodName). cmiUri i \<noteq> f)
        \<and> cacheConsistent (invalidateFileCache f (indexSingleFile h f c))"
      by (rule conjI)
  qed
qed

theorem invalidate_roundtrip_witness:
  "openTextDocument helperHost (Uri ''/z/y.ts'') = Some (mkDocument 1 helperText)
   \<and> executeDocumentSymbolProvider helperHost (Uri ''/z/y.ts'') = Some helperSymbols
   \<and> cacheConsistent emptyCache
   \<and> map cmiUri (findMethodsByName (indexSingleFile helperHost (Uri ''/z/y.ts'') emptyCache)
                    ''helper'') = [Uri ''/z/y.ts'']
   \<and> findMethodsByName
         (invalidateFileCache (Uri ''/z/y.ts'')
            (indexSingleFile helperHost (Uri ''/z/y.ts'') emptyCache)) ''helper'' = []
   \<and> indexSingleFile helperHost (Uri ''/z/y.ts'')
         (invalidateFileCache (Uri ''/z/y.ts'')
            (indexSingleFile helperHost (Uri ''/z/y.ts'') emptyCache))
       = indexSingleFile helperHost (Uri ''/z/y.ts'') emptyCache
   \<and> cacheConsistent
         (invalidateFileCache (Uri ''/z/y.ts'')
            (indexSingleFile helperHost (Uri ''/z/y.ts'') emptyCache))"
proof -
  note t = invalidate_roundtrip
             [where h = helperHost and f = "Uri ''/z/y.ts''" and c = emptyCache
                and doc = "mkDocument 1 helperText" and symbols = helperSymbols
                and methodName = "''helper''"]
  note t1 = mp [OF t [THEN conjunct1] conjI [OF helperHost_open helperHost_symbols]]
  note t2 = mp [OF t [THEN conjunct2] cacheConsistent_empty]
  have a: "map cmiUri (findMethodsByName (indexSingleFile helperHost (Uri ''/z/y.ts'')
                         emptyCache) ''helper'') = [Uri ''/z/y.ts'']"
    using t1
    by (simp add: contributedDefinitions_def emptyCache_def findMethodsByName_def
        helperSymbols_def isMethodSymbol_def)
  have b: "findMethodsByName
         (invalidateFileCache (Uri ''/z/y.ts'')
            (indexSingleFile helperHost (Uri ''/z/y.ts'') emptyCache)) ''helper'' = []"
    using t1 by (simp add: emptyCache_def findMethodsByName_def)
  have c: "indexSingleFile helperHost (Uri ''/z/y.ts'')
         (invalidateFileCache (Uri ''/z/y.ts'')
            (indexSingleFile helperHost (Uri ''/z/y.ts'') emptyCache))
       = indexSingleFile helperHost (Uri ''/z/y.ts'') emptyCache"
    using t1 by blast
  have d: "cacheConsistent
         (invalidateFileCache (Uri ''/z/y.ts'')
            (indexSingleFile helperHost (Uri ''/z/y.ts'') emptyCache))"
    using t2 by blast
  from helperHost_open helperHost_symbols cacheConsistent_empty a b c d show ?thesis
    by blast
qed

subsection \<open>Invariants of the forward traversal\<close>

lemma imcNodes_append: "imcNodes (xs @ ys) = imcNodes xs @ imcNodes ys"
  by (induction xs rule: imcNodes.induct) simp_all


lemma imcNodes_Cons:
  "imcNodes (n # rest) = n # imcNodes (imcChildren n) @ imcNodes rest"
  by (cases n) simp

lemma removeDuplicateCallsFrom_nodes:
  "set (imcNodes (removeDuplicateCallsFrom seen cs)) \<subseteq> set (imcNodes cs)"
  by (induction seen cs rule: removeDuplicateCallsFrom.induct) (auto simp: imcNodes_Cons)

lemma removeDuplicateCallsFrom_subset:
  "set (removeDuplicateCallsFrom seen cs) \<subseteq> set cs"
  by (induction seen cs rule: removeDuplicateCallsFrom.induct) auto

lemma drop1_nodes: "set (imcNodes (drop 1 cs)) \<subseteq> set (imcNodes cs)"
  by (cases cs) (auto simp: imcNodes_Cons)

lemma nodesOk_append:
  "nodesOk md (xs @ ys) \<longleftrightarrow> nodesOk md xs \<and> nodesOk md ys"
  by (auto simp: nodesOk_def imcNodes_append)

lemma nodesOk_mk:
  "nodesOk md [mkCallInfo m u cr def d children isrec]
     \<longleftrightarrow> int d < md \<and> (isrec \<longrightarrow> children = []) \<and> nodesOk md children"
  by (auto simp: nodesOk_def mkCallInfo_def)

lemma expandCall_recursive:
  "key \<in> fst st \<Longrightarrow> expandCall h md def key d st = ([], st)"
  by (cases def) auto

lemma nodesOk_Nil [simp]: "nodesOk md []"
  by (simp add: nodesOk_def)

lemma nodesOk_dedup: "nodesOk md cs \<Longrightarrow> nodesOk md (removeDuplicateCalls cs)"
  using removeDuplicateCallsFrom_nodes [of "{}" cs]
  by (auto simp: nodesOk_def removeDuplicateCalls_def)

lemma nodesOk_drop1: "nodesOk md cs \<Longrightarrow> nodesOk md (drop 1 cs)"
  using drop1_nodes [of cs] by (auto simp: nodesOk_def)

lemma depthsAt_dedup: "depthsAt d cs \<Longrightarrow> depthsAt d (removeDuplicateCalls cs)"
  using removeDuplicateCallsFrom_subset [of "{}" cs]
  by (auto simp: depthsAt_def removeDuplicateCalls_def)

lemma depthsAt_snoc:
  "depthsAt d (acc @ [mkCallInfo m u cr def d children isrec]) \<longleftrightarrow> depthsAt d acc"
  by (auto simp: depthsAt_def mkCallInfo_def)

lemma depthsAt_Nil [simp]: "depthsAt d []"
  by (simp add: depthsAt_def)

lemma forward_nodes:
  shows "\<And>cs st'. findMethodCallsInText h1 md1 text1 br1 u1 d1 st1 = (Returned cs, st')
           \<Longrightarrow> nodesOk md1 cs \<and> depthsAt d1 cs"
    and "int d2 < md2 \<Longrightarrow> nodesOk md2 acc2 \<Longrightarrow> depthsAt d2 acc2
           \<Longrightarrow> nodesOk md2 (fst (forEachMatch h2 md2 doc2 br2 u2 d2 ms2 acc2 st2))
               \<and> depthsAt d2 (fst (forEachMatch h2 md2 doc2 br2 u2 d2 ms2 acc2 st2))"
    and "nodesOk md3 (fst (expandCall h3 md3 def3 key3 d3 st3))"
proof (induction h1 md1 text1 br1 u1 d1 st1 and h2 md2 doc2 br2 u2 d2 ms2 acc2 st2 and h3 md3 def3 key3 d3 st3 rule: findMethodCallsInText_forEachMatch_expandCall.induct)
  case (1 h md body baseRange u currentDepth st)
  show ?case
  proof (cases "md \<le> int currentDepth")
    case True
    with "1.prems" show ?thesis by (simp add: findMethodCallsInText.simps)
  next
    case False
    show ?thesis
    proof (cases "openTextDocument h u")
      case None
      with False "1.prems" show ?thesis by (simp add: findMethodCallsInText.simps)
    next
      case (Some doc)
      let ?r = "forEachMatch h md doc baseRange u currentDepth
                  (sort_key matchIndex (findAllMethodCallMatches body)) [] st"
      have ih: "nodesOk md (fst ?r) \<and> depthsAt currentDepth (fst ?r)"
        using "1.IH" [OF False Some] False by simp
      have "cs = removeDuplicateCalls (fst ?r)"
        using "1.prems" False Some
        by (simp add: findMethodCallsInText.simps split: prod.splits)
      with ih show ?thesis
        by (simp add: nodesOk_dedup depthsAt_dedup)
    qed
  qed
next
  case (2 h md doc baseRange u currentDepth callsAcc st)
  then show ?case by simp
next
  case (3 h md doc baseRange u currentDepth m ms callsAcc st)
  show ?case
  proof (cases "matchName m = [] \<or> isBuiltInOrCommon (matchName m)")
    case True
    with 3 show ?thesis by simp
  next
    case False
    let ?def = "serviceFindMethodDefinition h (snd st) (matchName m) u"
    let ?key = "forwardMethodKey ?def (matchName m)"
    obtain children st1 where e: "expandCall h md ?def ?key currentDepth st = (children, st1)"
      by (cases "expandCall h md ?def ?key currentDepth st") blast
    let ?node = "mkCallInfo m u (callRangeOf doc baseRange m) ?def currentDepth children
                   (?key \<in> fst st)"
    have ch: "nodesOk md children"
      using "3.IH"(2) [OF False] e by simp
    have leaf: "?key \<in> fst st \<longrightarrow> children = []"
      using e expandCall_recursive [of ?key st h md ?def currentDepth] by auto
    have acc': "nodesOk md (callsAcc @ [?node]) \<and> depthsAt currentDepth (callsAcc @ [?node])"
      using ch leaf "3.prems" by (simp add: nodesOk_append nodesOk_mk depthsAt_snoc)
    show ?thesis
    proof (cases "currentDepth < 1")
      case True
      with False e acc' show ?thesis by simp
    next
      case d: False
      have "nodesOk md (fst (forEachMatch h md doc baseRange u currentDepth ms
                                  (callsAcc @ [?node]) st1))
            \<and> depthsAt currentDepth (fst (forEachMatch h md doc baseRange u currentDepth ms
                                  (callsAcc @ [?node]) st1))"
        using "3.IH"(3) [OF False e [symmetric] d] "3.prems"(1) acc' by blast
      with False e d show ?thesis by simp
    qed
  qed
next
  case (4 h md methodKey currentDepth st)
  show ?case by simp
next
  case (5 h md defUri defRange methodKey currentDepth st)
  show ?case
  proof (cases "methodKey \<in> fst st")
    case True
    then show ?thesis by simp
  next
    case False
    show ?thesis
    proof (cases "openTextDocument h defUri")
      case None
      with False show ?thesis by simp
    next
      case (Some defDocument)
      obtain symbols c1 where g: "getSymbolsForFile h defUri False (snd st) = (symbols, c1)"
        by (cases "getSymbolsForFile h defUri False (snd st)") blast
      show ?thesis
      proof (cases "findSymbolAtRange symbols defRange")
        case None
        with False Some g show ?thesis by simp
      next
        case (Some defMethod)
        let ?r = "findMethodCallsInText h md (docGetTextRange defDocument (symRange defMethod))
                    (symRange defMethod) defUri (currentDepth + 1)
                    (insert methodKey (fst st), c1)"
        obtain out st2 where r: "?r = (out, st2)"
          by (cases ?r) blast
        show ?thesis
        proof (cases out)
          case (Returned found)
          have "nodesOk md found"
            using "5.IH" [OF False \<open>openTextDocument h defUri = Some defDocument\<close>
                            g [symmetric] Some] r Returned
            by simp
          then have "nodesOk md (drop 1 found)"
            by (rule nodesOk_drop1)
          with False \<open>openTextDocument h defUri = Some defDocument\<close> g Some r Returned
          show ?thesis by simp
        next
          case Threw
          with False \<open>openTextDocument h defUri = Some defDocument\<close> g Some r
          show ?thesis by simp
        qed
      qed
    qed
  qed
qed

lemma expandedKeys_append: "expandedKeys (xs @ ys) = expandedKeys xs @ expandedKeys ys"
  by (simp add: expandedKeys_def imcNodes_append)

lemma expandedKeys_Nil [simp]: "expandedKeys [] = []"
  by (simp add: expandedKeys_def)

lemma expandedKeys_Cons:
  "expandedKeys (n # rest)
     = (if isExpanded n then [nodeKey n] else []) @ expandedKeys (imcChildren n)
         @ expandedKeys rest"
  by (simp add: expandedKeys_def imcNodes_Cons)

lemma nodeKey_mk:
  "nodeKey (mkCallInfo m u cr def d children isrec) = forwardMethodKey def (matchName m)"
  by (cases def) (auto simp: nodeKey_def mkCallInfo_def)

lemma expandedKeys_mk:
  "expandedKeys [mkCallInfo m u cr def d children isrec]
     = (if def \<noteq> None \<and> \<not> isrec then [forwardMethodKey def (matchName m)] else [])
         @ expandedKeys children"
proof -
  have a: "isExpanded (mkCallInfo m u cr def d children isrec) = (def \<noteq> None \<and> \<not> isrec)"
    by (simp add: isExpanded_def mkCallInfo_def)
  have b: "imcChildren (mkCallInfo m u cr def d children isrec) = children"
    by (simp add: mkCallInfo_def)
  show ?thesis
    unfolding expandedKeys_Cons a b nodeKey_mk by simp
qed

lemma dedupFrom_keys_subset:
  "set (expandedKeys (removeDuplicateCallsFrom seen cs)) \<subseteq> set (expandedKeys cs)"
proof (induction seen cs rule: removeDuplicateCallsFrom.induct)
  case (1 seen)
  show ?case by simp
next
  case (2 seen call rest)
  then show ?case
    by (auto simp: expandedKeys_Cons split: if_splits)
qed

lemma dedupFrom_keys_distinct:
  "distinct (expandedKeys cs) \<Longrightarrow> distinct (expandedKeys (removeDuplicateCallsFrom seen cs))"
proof (induction seen cs rule: removeDuplicateCallsFrom.induct)
  case (1 seen)
  show ?case by simp
next
  case (2 seen call rest)
  show ?case
  proof (cases "duplicateKey call \<in> seen")
    case True
    with 2 show ?thesis
      by (simp add: expandedKeys_Cons split: if_splits)
  next
    case False
    let ?rest' = "removeDuplicateCallsFrom (insert (duplicateKey call) seen) rest"
    have sub: "set (expandedKeys ?rest') \<subseteq> set (expandedKeys rest)"
      by (rule dedupFrom_keys_subset)
    have d: "distinct (expandedKeys ?rest')"
      using "2.IH"(2) [OF False] "2.prems" by (simp add: expandedKeys_Cons split: if_splits)
    have e: "expandedKeys (call # ?rest')
               = ((if isExpanded call then [nodeKey call] else [])
                    @ expandedKeys (imcChildren call)) @ expandedKeys ?rest'"
      by (simp add: expandedKeys_Cons)
    have f: "distinct ((if isExpanded call then [nodeKey call] else [])
                          @ expandedKeys (imcChildren call))"
      using "2.prems" by (simp add: expandedKeys_Cons split: if_splits)
    have g: "set ((if isExpanded call then [nodeKey call] else [])
                          @ expandedKeys (imcChildren call)) \<inter> set (expandedKeys rest) = {}"
      using "2.prems" by (auto simp: expandedKeys_Cons split: if_splits)
    have "distinct (expandedKeys (call # ?rest'))"
      unfolding e using d f g sub by (subst distinct_append) blast
    with False show ?thesis by simp
  qed
qed

lemma expandedFresh_dedup:
  "expandedFresh before cs after \<Longrightarrow> expandedFresh before (removeDuplicateCalls cs) after"
  using dedupFrom_keys_subset [of "{}" cs] dedupFrom_keys_distinct [of cs "{}"]
  by (auto simp: expandedFresh_def removeDuplicateCalls_def)

lemma expandedFresh_drop1:
  "expandedFresh before cs after \<Longrightarrow> expandedFresh before (drop 1 cs) after"
  by (cases cs) (auto simp: expandedFresh_def expandedKeys_Cons split: if_splits)

lemma expandedFresh_Nil: "expandedFresh before [] after \<longleftrightarrow> before \<subseteq> after"
  by (simp add: expandedFresh_def)

lemma expandedFresh_snoc:
  assumes acc: "expandedFresh S callsAcc P"
    and ch: "expandedFresh (if def \<noteq> None \<and> key \<notin> P then insert key P else P) children P1"
    and key: "key = forwardMethodKey def (matchName m)"
    and leaf: "def = None \<or> key \<in> P \<longrightarrow> children = []"
  shows "expandedFresh S
           (callsAcc @ [mkCallInfo m u cr def d children (key \<in> P)]) P1"
proof (cases "def \<noteq> None \<and> key \<notin> P")
  case True
  with ch have c: "insert key P \<subseteq> P1" "distinct (expandedKeys children)"
    "set (expandedKeys children) \<subseteq> P1 - insert key P"
    by (simp_all add: expandedFresh_def)
  from acc have a: "S \<subseteq> P" "distinct (expandedKeys callsAcc)"
    "set (expandedKeys callsAcc) \<subseteq> P - S"
    by (simp_all add: expandedFresh_def)
  have k: "expandedKeys (callsAcc @ [mkCallInfo m u cr def d children (key \<in> P)])
             = expandedKeys callsAcc @ key # expandedKeys children"
    using True key by (simp add: expandedKeys_append expandedKeys_mk)
  show ?thesis
    unfolding expandedFresh_def k using a c True by auto
next
  case False
  with leaf have n: "children = []" by auto
  from False ch have c: "P \<subseteq> P1"
    by (auto simp: expandedFresh_def)
  have k: "expandedKeys (callsAcc @ [mkCallInfo m u cr def d children (key \<in> P)])
             = expandedKeys callsAcc"
    using False n by (auto simp: expandedKeys_append expandedKeys_mk)
  show ?thesis
    unfolding expandedFresh_def k using acc c by (auto simp: expandedFresh_def)
qed

lemma forward_visited:
  shows "fst st1 \<subseteq> fst (snd (findMethodCallsInText h1 md1 text1 br1 u1 d1 st1))
         \<and> (\<forall>cs. fst (findMethodCallsInText h1 md1 text1 br1 u1 d1 st1) = Returned cs
               \<longrightarrow> expandedFresh (fst st1) cs
                     (fst (snd (findMethodCallsInText h1 md1 text1 br1 u1 d1 st1))))"
    and "fst st2 \<subseteq> fst (snd (forEachMatch h2 md2 doc2 br2 u2 d2 ms2 acc2 st2))
         \<and> (\<forall>S. expandedFresh S acc2 (fst st2)
               \<longrightarrow> expandedFresh S (fst (forEachMatch h2 md2 doc2 br2 u2 d2 ms2 acc2 st2))
                     (fst (snd (forEachMatch h2 md2 doc2 br2 u2 d2 ms2 acc2 st2))))"
    and "expandedFresh (if def3 \<noteq> None \<and> key3 \<notin> fst st3 then insert key3 (fst st3) else fst st3)
           (fst (expandCall h3 md3 def3 key3 d3 st3))
           (fst (snd (expandCall h3 md3 def3 key3 d3 st3)))
         \<and> (def3 = None \<or> key3 \<in> fst st3 \<longrightarrow> fst (expandCall h3 md3 def3 key3 d3 st3) = [])"
proof (induction h1 md1 text1 br1 u1 d1 st1 and h2 md2 doc2 br2 u2 d2 ms2 acc2 st2 and h3 md3 def3 key3 d3 st3 rule: findMethodCallsInText_forEachMatch_expandCall.induct)
  case (1 h md body baseRange u currentDepth st)
  show ?case
  proof (cases "md \<le> int currentDepth")
    case True
    then show ?thesis by (simp add: findMethodCallsInText.simps expandedFresh_Nil)
  next
    case False
    show ?thesis
    proof (cases "openTextDocument h u")
      case None
      with False show ?thesis by (simp add: findMethodCallsInText.simps)
    next
      case (Some doc)
      obtain callsAcc st' where
        r: "forEachMatch h md doc baseRange u currentDepth
              (sort_key matchIndex (findAllMethodCallMatches body)) [] st = (callsAcc, st')"
        by (cases "forEachMatch h md doc baseRange u currentDepth
                     (sort_key matchIndex (findAllMethodCallMatches body)) [] st") blast
      have ih: "fst st \<subseteq> fst st'
                \<and> (\<forall>S. expandedFresh S [] (fst st) \<longrightarrow> expandedFresh S callsAcc (fst st'))"
        using "1.IH" [OF False Some] r by simp
      then have "expandedFresh (fst st) callsAcc (fst st')"
        by (simp add: expandedFresh_Nil)
      then have "expandedFresh (fst st) (removeDuplicateCalls callsAcc) (fst st')"
        by (rule expandedFresh_dedup)
      with ih False Some r show ?thesis by (simp add: findMethodCallsInText.simps)
    qed
  qed
next
  case (2 h md doc baseRange u currentDepth callsAcc st)
  show ?case by simp
next
  case (3 h md doc baseRange u currentDepth m ms callsAcc st)
  show ?case
  proof (cases "matchName m = [] \<or> isBuiltInOrCommon (matchName m)")
    case True
    with "3.IH"(1) show ?thesis by simp
  next
    case False
    let ?def = "serviceFindMethodDefinition h (snd st) (matchName m) u"
    let ?key = "forwardMethodKey ?def (matchName m)"
    obtain children st1 where e: "expandCall h md ?def ?key currentDepth st = (children, st1)"
      by (cases "expandCall h md ?def ?key currentDepth st") blast
    let ?node = "mkCallInfo m u (callRangeOf doc baseRange m) ?def currentDepth children
                   (?key \<in> fst st)"
    have ex: "expandedFresh (if ?def \<noteq> None \<and> ?key \<notin> fst st then insert ?key (fst st) else fst st)
                children (fst st1)"
      and leaf: "?def = None \<or> ?key \<in> fst st \<longrightarrow> children = []"
      using "3.IH"(2) [OF False] e by simp_all
    have mono: "fst st \<subseteq> fst st1"
      using ex by (auto simp: expandedFresh_def split: if_splits)
    have step: "\<forall>S. expandedFresh S callsAcc (fst st)
                  \<longrightarrow> expandedFresh S (callsAcc @ [?node]) (fst st1)"
      using expandedFresh_snoc [OF _ ex refl leaf] by blast
    show ?thesis
    proof (cases "currentDepth < 1")
      case True
      with False e mono step show ?thesis by simp
    next
      case d: False
      obtain res st' where
        r: "forEachMatch h md doc baseRange u currentDepth ms (callsAcc @ [?node]) st1 = (res, st')"
        by (cases "forEachMatch h md doc baseRange u currentDepth ms (callsAcc @ [?node]) st1") blast
      have ih: "fst st1 \<subseteq> fst st'
                \<and> (\<forall>S. expandedFresh S (callsAcc @ [?node]) (fst st1)
                      \<longrightarrow> expandedFresh S res (fst st'))"
        using "3.IH"(3) [OF False e [symmetric] d] r by simp
      have "fst st \<subseteq> fst st'
            \<and> (\<forall>S. expandedFresh S callsAcc (fst st) \<longrightarrow> expandedFresh S res (fst st'))"
        using ih mono step by blast
      with False e d r show ?thesis by simp
    qed
  qed
next
  case (4 h md methodKey currentDepth st)
  show ?case by (simp add: expandedFresh_Nil)
next
  case (5 h md defUri defRange methodKey currentDepth st)
  show ?case
  proof (cases "methodKey \<in> fst st")
    case True
    then show ?thesis by (simp add: expandedFresh_Nil)
  next
    case False
    show ?thesis
    proof (cases "openTextDocument h defUri")
      case None
      with False show ?thesis by (simp add: expandedFresh_Nil)
    next
      case (Some defDocument)
      obtain symbols c1 where g: "getSymbolsForFile h defUri False (snd st) = (symbols, c1)"
        by (cases "getSymbolsForFile h defUri False (snd st)") blast
      show ?thesis
      proof (cases "findSymbolAtRange symbols defRange")
        case None
        with False Some g show ?thesis by (simp add: expandedFresh_Nil)
      next
        case (Some defMethod)
        let ?r = "findMethodCallsInText h md (docGetTextRange defDocument (symRange defMethod))
                    (symRange defMethod) defUri (currentDepth + 1)
                    (insert methodKey (fst st), c1)"
        obtain out st2 where r: "?r = (out, st2)"
          by (cases ?r) blast
        have ih: "insert methodKey (fst st) \<subseteq> fst st2
                  \<and> (\<forall>cs. out = Returned cs
                        \<longrightarrow> expandedFresh (insert methodKey (fst st)) cs (fst st2))"
          using "5.IH" [OF False \<open>openTextDocument h defUri = Some defDocument\<close>
                          g [symmetric] Some] r
          by simp
        show ?thesis
        proof (cases out)
          case (Returned found)
          with ih have "expandedFresh (insert methodKey (fst st)) found (fst st2)"
            by simp
          then have "expandedFresh (insert methodKey (fst st)) (drop 1 found) (fst st2)"
            by (rule expandedFresh_drop1)
          with False \<open>openTextDocument h defUri = Some defDocument\<close> g Some r Returned
          show ?thesis by simp
        next
          case Threw
          with ih False \<open>openTextDocument h defUri = Some defDocument\<close> g Some r
          show ?thesis by (simp add: expandedFresh_Nil)
        qed
      qed
    qed
  qed
qed

lemma resolvedOk_Nil [simp]: "resolvedOk []"
  by (simp add: resolvedOk_def)






subsection \<open>Invariants of the backward traversal\<close>

lemma mciNodes_append: "mciNodes (xs @ ys) = mciNodes xs @ mciNodes ys"
  by (induction xs rule: mciNodes.induct) simp_all

lemma mciNodes_single: "mciNodes [n] = n # mciNodes (mciChildren n)"
  by (cases n) simp

lemma mciDepthsWithin_append:
  "mciDepthsWithin md (xs @ ys) \<longleftrightarrow> mciDepthsWithin md xs \<and> mciDepthsWithin md ys"
  by (auto simp: mciDepthsWithin_def mciNodes_append)

lemma mciDepthsWithin_single:
  "mciDepthsWithin md [n] \<longleftrightarrow> int (mciDepth n) \<le> md \<and> mciDepthsWithin md (mciChildren n)"
  by (simp add: mciDepthsWithin_def mciNodes_single)

lemma mciDepthsWithin_Nil [simp]: "mciDepthsWithin md []"
  by (simp add: mciDepthsWithin_def)

lemma backward_depths:
  shows "mciDepthsWithin md1 [ci1]
           \<Longrightarrow> mciDepthsWithin md1 [fst (findMethodReferencesWorkspace h1 md1 ci1 d1 st1)]"
    and "int d2 < md2 \<Longrightarrow> mciDepthsWithin md2 ch2
           \<Longrightarrow> mciDepthsWithin md2 (fst (forEachFile h2 md2 ci2 d2 files2 ch2 st2))"
    and "int d3 < md3 \<Longrightarrow> mciDepthsWithin md3 ch3
           \<Longrightarrow> mciDepthsWithin md3 (fst (forEachLocation h3 md3 ci3 d3 u3 syms3 locs3 ch3 st3))"
proof (induction h1 md1 ci1 d1 st1 and h2 md2 ci2 d2 files2 ch2 st2 and h3 md3 ci3 d3 u3 syms3 locs3 ch3 st3 rule: findMethodReferencesWorkspace_forEachFile_forEachLocation.induct)
  case (1 h md callInfo currentDepth st)
  show ?case
  proof (cases "md \<le> int currentDepth \<or> backwardMethodKey callInfo \<in> fst st")
    case True
    with "1.prems" show ?thesis by (auto simp: findMethodReferencesWorkspace.simps)
  next
    case False
    then have a: "\<not> md \<le> int currentDepth" and b: "backwardMethodKey callInfo \<notin> fst st"
      by auto
    obtain references c1 where
      s: "searchWorkspaceForMethod h (mciMethodName callInfo) (snd st) = (references, c1)"
      by (cases "searchWorkspaceForMethod h (mciMethodName callInfo) (snd st)") blast
    show ?thesis
    proof (cases "length references = 0")
      case True
      with a b s "1.prems" show ?thesis by (simp add: findMethodReferencesWorkspace.simps)
    next
      case n: False
      obtain children st' where
        r: "forEachFile h md callInfo currentDepth (callsByFile references)
              (mciChildren callInfo) (insert (backwardMethodKey callInfo) (fst st), c1)
            = (children, st')"
        by (cases "forEachFile h md callInfo currentDepth (callsByFile references)
                     (mciChildren callInfo)
                     (insert (backwardMethodKey callInfo) (fst st), c1)") blast
      have "mciDepthsWithin md children"
        using "1.IH" [OF a b s [symmetric] n] a "1.prems" r
        by (simp add: mciDepthsWithin_single)
      moreover have "int (mciDepth callInfo) \<le> md"
        using "1.prems" by (simp add: mciDepthsWithin_single)
      ultimately show ?thesis
        using a b s n r
        by (simp add: findMethodReferencesWorkspace.simps mciDepthsWithin_single)
    qed
  qed
next
  case (2 h md callInfo currentDepth children st)
  then show ?case by simp
next
  case (3 h md callInfo currentDepth fileUri locations rest children st)
  let ?f = "filterDefinitionSite callInfo (uriParse fileUri) locations"
  show ?case
  proof (cases "length ?f = 0")
    case True
    with 3 show ?thesis by simp
  next
    case f: False
    obtain symbols c1 where
      g: "getSymbolsForFile h (uriParse fileUri) False (snd st) = (symbols, c1)"
      by (cases "getSymbolsForFile h (uriParse fileUri) False (snd st)") blast
    show ?thesis
    proof (cases "length symbols = 0")
      case True
      with "3.IH"(2) [OF f g [symmetric] True] "3.prems" f g show ?thesis by simp
    next
      case n: False
      obtain children' st' where
        l: "forEachLocation h md callInfo currentDepth (uriParse fileUri) symbols ?f children
              (fst st, c1) = (children', st')"
        by (cases "forEachLocation h md callInfo currentDepth (uriParse fileUri) symbols ?f
                     children (fst st, c1)") blast
      have "mciDepthsWithin md children'"
        using "3.IH"(3) [OF f g [symmetric] n] "3.prems" l by simp
      then have "mciDepthsWithin md (fst (forEachFile h md callInfo currentDepth rest children' st'))"
        using "3.IH"(4) [OF f g [symmetric] n l [symmetric]] "3.prems" by simp
      with f g n l show ?thesis by simp
    qed
  qed
next
  case (4 h md callInfo currentDepth u symbols children st)
  then show ?case by simp
next
  case (5 h md callInfo currentDepth u symbols location rest children st)
  show ?case
  proof (cases "findContainingMethod (locRange location) symbols")
    case None
    with 5 show ?thesis by simp
  next
    case (Some callingMethod)
    show ?thesis
    proof (cases "existingChild children callingMethod u")
      case e: (Some found)
      with "5.IH"(4) [OF Some e] "5.prems" Some show ?thesis by simp
    next
      case e: None
      let ?node = "MethodCallInfo (symName callingMethod) u (symSelectionRange callingMethod)
                     (Some (mciMethodName callInfo)) (currentDepth + 1) []"
      obtain child st' where
        r: "findMethodReferencesWorkspace h md ?node (currentDepth + 1) st = (child, st')"
        by (cases "findMethodReferencesWorkspace h md ?node (currentDepth + 1) st") blast
      have "mciDepthsWithin md [?node]"
        using "5.prems"(1) by (simp add: mciDepthsWithin_single)
      then have "mciDepthsWithin md [child]"
        using "5.IH"(2) [OF Some e] r by simp
      then have "mciDepthsWithin md (children @ [child])"
        using "5.prems"(2) by (simp add: mciDepthsWithin_append)
      then have "mciDepthsWithin md
                   (fst (forEachLocation h md callInfo currentDepth u symbols rest
                           (children @ [child]) st'))"
        using "5.IH"(3) [OF Some e r [symmetric]] "5.prems"(1) by simp
      with Some e r show ?thesis by simp
    qed
  qed
qed

subsection \<open>The scenarios, step by step\<close>

lemma mutual_open: "openTextDocument mutualHost mutualFile = Some mutualDoc"
  by (simp add: mutualHost_def workspaceHost_def mutualDoc_def)

lemma mutual_texts:
  "docGetTextRange mutualDoc (symRange symbolA) = textA"
  "docGetTextRange mutualDoc (symRange symbolB) = textB"
  unfolding mutualDoc_def textA_def textB_def by code_simp+

lemma mutual_matches:
  "sort_key matchIndex (findAllMethodCallMatches textA)
     = [CallMatch ''methodA'' 9, CallMatch ''methodB'' 21]"
  "sort_key matchIndex (findAllMethodCallMatches textB)
     = [CallMatch ''methodB'' 9, CallMatch ''methodA'' 21]"
  unfolding textA_def textB_def by code_simp+

lemma mutual_not_builtin:
  "isBuiltInOrCommon ''methodA'' = False" "isBuiltInOrCommon ''methodB'' = False"
  by code_simp+

lemma mutual_definitions:
  "serviceFindMethodDefinition mutualHost mutualCache ''methodA'' mutualFile
     = Some (mutualFile, onLine0 9 16)"
  "serviceFindMethodDefinition mutualHost mutualCache ''methodB'' mutualFile
     = Some (mutualFile, onLine0 43 50)"
  by code_simp+

lemma mutual_keys:
  "forwardMethodKey (Some (mutualFile, onLine0 9 16)) n = keyA"
  "forwardMethodKey (Some (mutualFile, onLine0 43 50)) n = keyB"
  "keyA \<noteq> keyB"
  unfolding keyA_def keyB_def forwardMethodKey_def by code_simp+

lemma mutual_cached:
  "symbolCache mutualCache (uriToString mutualFile)
     = Some \<lparr>csiUri = mutualFile, csiSymbols = [symbolA, symbolB], csiVersion = 1\<rparr>"
  by code_simp

lemma mutual_symbols:
  "getSymbolsForFile mutualHost mutualFile False mutualCache = ([symbolA, symbolB], mutualCache)"
  by (simp add: getSymbolsForFile_def mutual_cached mutual_open mutualDoc_def mkDocument_def)

lemma mutual_symbol_at:
  "findSymbolAtRange [symbolA, symbolB] (onLine0 9 16) = Some symbolA"
  "findSymbolAtRange [symbolA, symbolB] (onLine0 43 50) = Some symbolB"
  by code_simp+

lemma mutual_ranges:
  "callRangeOf mutualDoc (symRange symbolA) (CallMatch ''methodA'' 9) = onLine0 9 16"
  "callRangeOf mutualDoc (symRange symbolA) (CallMatch ''methodB'' 21) = onLine0 21 28"
  "callRangeOf mutualDoc (symRange symbolB) (CallMatch ''methodB'' 9) = onLine0 43 50"
  "callRangeOf mutualDoc (symRange symbolB) (CallMatch ''methodA'' 21) = onLine0 55 62"
  unfolding mutualDoc_def by code_simp+

lemma mutual_duplicate_keys:
  "duplicateKey (InternalMethodCallInfo ''methodB'' mutualFile r a b c d e f)
     \<noteq> duplicateKey (InternalMethodCallInfo ''methodA'' mutualFile r' a' b' c' d' e' f')"
  "duplicateKey (InternalMethodCallInfo ''methodA'' mutualFile r a b c d e f)
     \<noteq> duplicateKey (InternalMethodCallInfo ''methodB'' mutualFile r' a' b' c' d' e' f')"
  by (simp_all add: duplicateKey_def)

lemmas mutual_facts =
  findMethodCallsInText.simps mutual_open mutual_texts mutual_matches mutual_not_builtin mutual_definitions mutual_keys
  mutual_symbols mutual_symbol_at mutual_ranges mutual_duplicate_keys
  mkCallInfo_def removeDuplicateCalls_def

lemma mutual_level2:
  assumes "3 \<le> md" and "keyA \<in> P" and "keyB \<in> P"
  shows "findMethodCallsInText mutualHost md textB (symRange symbolB) mutualFile 2
           (P, mutualCache)
         = (Returned
             [InternalMethodCallInfo ''methodB'' mutualFile (onLine0 43 50)
                (Some mutualFile) (Some (onLine0 43 50)) 2 [] True True,
              secondA],
            (P, mutualCache))"
  using assms by (simp add: mutual_facts secondA_def)

lemma mutual_level1:
  assumes "3 \<le> md" and "keyA \<in> P" and "keyB \<notin> P"
  shows "findMethodCallsInText mutualHost md textA (symRange symbolA) mutualFile 1
           (P, mutualCache)
         = (Returned
             [InternalMethodCallInfo ''methodA'' mutualFile (onLine0 9 16)
                (Some mutualFile) (Some (onLine0 9 16)) 1 [] True True,
              InternalMethodCallInfo ''methodB'' mutualFile (onLine0 21 28)
                (Some mutualFile) (Some (onLine0 43 50)) 1 [secondA] True False],
            (insert keyB P, mutualCache))"
proof -
  have l2: "findMethodCallsInText mutualHost md textB (symRange symbolB) mutualFile (Suc (Suc 0))
              (insert keyB P, mutualCache)
            = (Returned
                 [InternalMethodCallInfo ''methodB'' mutualFile (onLine0 43 50)
                    (Some mutualFile) (Some (onLine0 43 50)) 2 [] True True,
                  secondA],
               (insert keyB P, mutualCache))"
    using mutual_level2 [of md "insert keyB P"] assms by (simp add: numeral_2_eq_2)
  show ?thesis
    using assms
    by (simp add: findMethodCallsInText.simps [of mutualHost md textA] mutual_open mutual_texts
          mutual_matches mutual_not_builtin mutual_definitions mutual_keys mutual_symbols
          mutual_symbol_at mutual_ranges mutual_duplicate_keys mkCallInfo_def
          removeDuplicateCalls_def l2)
qed

lemma mutual_run:
  assumes "3 \<le> md"
  shows "findMethodCallsInText mutualHost md textA (symRange symbolA) mutualFile 0
           ({}, mutualCache)
         = (Returned mutualCalls, ({keyB, keyA}, mutualCache))"
proof -
  have l1: "findMethodCallsInText mutualHost md textA (symRange symbolA) mutualFile (Suc 0)
              ({keyA}, mutualCache)
            = (Returned
                [InternalMethodCallInfo ''methodA'' mutualFile (onLine0 9 16)
                   (Some mutualFile) (Some (onLine0 9 16)) 1 [] True True,
                 InternalMethodCallInfo ''methodB'' mutualFile (onLine0 21 28)
                   (Some mutualFile) (Some (onLine0 43 50)) 1 [secondA] True False],
               ({keyB, keyA}, mutualCache))"
    using mutual_level1 [of md "{keyA}"] assms mutual_keys(3) by simp
  have "findMethodCallsInText mutualHost md textA (symRange symbolA) mutualFile 0
           ({}, mutualCache)
         = (case forEachMatch mutualHost md mutualDoc (symRange symbolA) mutualFile 0
                   [CallMatch ''methodA'' 9, CallMatch ''methodB'' 21] [] ({}, mutualCache) of
              (callsAcc, st') \<Rightarrow> (Returned (removeDuplicateCalls callsAcc), st'))"
    using assms
    by (subst findMethodCallsInText.simps) (simp add: mutual_open mutual_matches)
  also have "\<dots> = (Returned mutualCalls, ({keyB, keyA}, mutualCache))"
    using assms
    by (simp add: mutual_open mutual_texts
          mutual_matches mutual_not_builtin mutual_definitions mutual_keys mutual_symbols
          mutual_symbol_at mutual_ranges mutual_duplicate_keys mkCallInfo_def
          removeDuplicateCalls_def l1 mutualCalls_def)
  finally show ?thesis .
qed

lemma totalReferences_undefined:
  "readProperty (getCacheStats c) ''totalReferences'' = None"
  by (simp add: readProperty_def getCacheStats_def)

lemma searchWorkspaceForMethod_symbols:
  "searchWorkspaceForMethod h methodName c
     = (case findFiles h of
          None \<Rightarrow> ([], c)
        | Some files \<Rightarrow>
            searchCachedSymbolsFiles h methodName files
              (map (\<lambda>methodDef. Location (cmiUri methodDef)
                                          (symSelectionRange (cmiSymbol methodDef)))
                   (findMethodsByName c methodName)) c)"
  by (simp add: searchWorkspaceForMethod_def totalReferences_undefined greaterThanZero_def)

lemma open_files: "findFiles openHost = Some [openFile]"
  by (simp add: openHost_def workspaceHost_def)

lemma open_cached:
  "symbolCache openCache (uriToString openFile)
     = Some \<lparr>csiUri = openFile, csiSymbols = openSymbols, csiVersion = 1\<rparr>"
  by code_simp

lemma open_symbols:
  "getSymbolsForFile openHost openFile False openCache = (openSymbols, openCache)"
  by (simp add: getSymbolsForFile_def open_cached openHost_def workspaceHost_def mkDocument_def)

lemma open_definitions:
  "map (\<lambda>methodDef. Location (cmiUri methodDef) (symSelectionRange (cmiSymbol methodDef)))
       (findMethodsByName openCache ''open'')
     = [Location openFile (onLine0 10 14)]"
  "map (\<lambda>methodDef. Location (cmiUri methodDef) (symSelectionRange (cmiSymbol methodDef)))
       (findMethodsByName openCache ''openNow'')
     = [Location openFile (onLine0 21 28)]"
  by code_simp+

lemma open_names:
  "findMethodCallsInSymbols ''open'' openSymbols openFile [Location openFile (onLine0 10 14)]
     = [Location openFile (onLine0 10 14), Location openFile (onLine0 10 14),
        Location openFile (onLine0 21 28)]"
  "findMethodCallsInSymbols ''openNow'' openSymbols openFile [Location openFile (onLine0 21 28)]
     = [Location openFile (onLine0 21 28), Location openFile (onLine0 21 28)]"
  by code_simp+

lemma open_locations:
  "searchWorkspaceForMethod openHost ''open'' openCache
     = ([Location openFile (onLine0 10 14), Location openFile (onLine0 10 14),
         Location openFile (onLine0 21 28)], openCache)"
  "searchWorkspaceForMethod openHost ''openNow'' openCache
     = ([Location openFile (onLine0 21 28), Location openFile (onLine0 21 28)], openCache)"
  by (simp_all add: searchWorkspaceForMethod_symbols open_files open_definitions open_symbols
      open_names)

lemma open_by_file:
  "callsByFile [Location openFile r1, Location openFile r2, Location openFile r3]
     = [(uriToString openFile,
         [Location openFile r1, Location openFile r2, Location openFile r3])]"
  "callsByFile [Location openFile r1, Location openFile r2]
     = [(uriToString openFile, [Location openFile r1, Location openFile r2])]"
  by (simp_all add: callsByFile_def)

lemma open_parse: "uriParse (uriToString openFile) = openFile"
  by (simp add: uriParse_def uriToString_def openFile_def)

lemma open_filtered:
  "filterDefinitionSite (MethodCallInfo ''open'' openFile (onLine0 10 14) caller d ch) openFile
     [Location openFile (onLine0 10 14), Location openFile (onLine0 10 14),
      Location openFile (onLine0 21 28)]
   = [Location openFile (onLine0 21 28)]"
  "filterDefinitionSite (MethodCallInfo ''openNow'' openFile (onLine0 21 28) caller d ch) openFile
     [Location openFile (onLine0 21 28), Location openFile (onLine0 21 28)]
   = []"
  by (simp_all add: filterDefinitionSite_def rangeIsEqual_def rangeContains_def
      containsPosition_def isBeforeOrEqual_def onLine0_def)

lemma open_callers:
  "findContainingMethod (onLine0 21 28) openSymbols
     = Some (DocumentSymbol ''openNow'' KMethod (onLine0 21 47) (onLine0 21 28) [])"
  "openSymbols \<noteq> []"
  by (simp_all add: openSymbols_def openSymbol_def rangeContains_def containsPosition_def
      isBeforeOrEqual_def onLine0_def)

lemma open_keys:
  "backwardMethodKey (MethodCallInfo ''open'' openFile (onLine0 10 14) caller d ch) = openKey"
  "backwardMethodKey (MethodCallInfo ''openNow'' openFile (onLine0 21 28) caller d ch)
     = openNowKey"
  "openNowKey \<noteq> openKey"
  unfolding openKey_def openNowKey_def backwardMethodKey_def by code_simp+

lemmas open_facts =
  open_locations open_by_file open_parse open_filtered open_symbols open_callers open_keys
  existingChild_def

lemma open_level1:
  assumes "2 \<le> md" and "openNowKey \<notin> P"
  shows "findMethodReferencesWorkspace openHost md openNowNode 1 (P, openCache)
         = (openNowNode, (insert openNowKey P, openCache))"
  using assms
  by (simp add: findMethodReferencesWorkspace.simps open_facts openNowNode_def)

lemma open_run:
  assumes "2 \<le> md"
  shows "findMethodReferencesWorkspace openHost md openRoot 0 ({}, openCache)
     = (openTree, ({openNowKey, openKey}, openCache))"
proof -
  have l1: "findMethodReferencesWorkspace openHost md
              (MethodCallInfo ''openNow'' openFile (onLine0 21 28) (Some ''open'') (Suc 0) [])
              (Suc 0) ({openKey}, openCache)
            = (openNowNode, ({openNowKey, openKey}, openCache))"
    using open_level1 [OF assms, of "{openKey}"] open_keys(3) by (simp add: openNowNode_def)
  have "findMethodReferencesWorkspace openHost md openRoot 0 ({}, openCache)
          = (case forEachFile openHost md openRoot 0
                    [(uriToString openFile,
                      [Location openFile (onLine0 10 14), Location openFile (onLine0 10 14),
                       Location openFile (onLine0 21 28)])] [] ({openKey}, openCache) of
               (children, st') \<Rightarrow>
                 (MethodCallInfo ''open'' openFile (onLine0 10 14) None 0 children, st'))"
    using assms
    by (subst findMethodReferencesWorkspace.simps)
       (simp add: open_locations open_by_file open_keys openRoot_def)
  also have "\<dots> = (openTree, ({openNowKey, openKey}, openCache))"
    by (simp add: open_facts l1 openRoot_def openTree_def)
  finally show ?thesis .
qed

subsection \<open>The entry points\<close>

lemma analyzeMethodCalls_result:
  "fst (analyzeMethodCalls h methodSymbol u (svc, c))
     = Returned (Some (fst (findMethodReferencesWorkspace h (maxDepth svc)
          (MethodCallInfo (symName methodSymbol) u (symSelectionRange methodSymbol) None 0 [])
          0 ({}, c))))"
  by (simp add: analyzeMethodCalls_def analyzeMethodCallsBody_def tryCatch_def
      split: prod.splits)

lemma analyzeMethodCalls_state:
  "snd (analyzeMethodCalls h methodSymbol u (svc, c))
     = (svc\<lparr>processedMethods := fst (snd (findMethodReferencesWorkspace h (maxDepth svc)
          (MethodCallInfo (symName methodSymbol) u (symSelectionRange methodSymbol) None 0 [])
          0 ({}, c)))\<rparr>,
        snd (snd (findMethodReferencesWorkspace h (maxDepth svc)
          (MethodCallInfo (symName methodSymbol) u (symSelectionRange methodSymbol) None 0 [])
          0 ({}, c))))"
  by (simp add: analyzeMethodCalls_def analyzeMethodCallsBody_def tryCatch_def
      split: prod.splits)

lemma analyzeInternalMethodCalls_result:
  "fst (analyzeInternalMethodCalls h methodSymbol u (svc, c))
     = (case openTextDocument h u of
          None \<Rightarrow> Returned None
        | Some doc \<Rightarrow>
            (case fst (findMethodCallsInText h (maxDepth svc)
                         (docGetTextRange doc (symRange methodSymbol))
                         (symRange methodSymbol) u 0 ({}, c)) of
               Threw \<Rightarrow> Returned None
             | Returned internalCalls \<Rightarrow>
                 Returned (Some \<lparr>rootMethod = symName methodSymbol, rootUri = u,
                                  rootRange = symSelectionRange methodSymbol,
                                  calls = internalCalls,
                                  totalCallsFound = countTotalCalls internalCalls,
                                  analysisDepth = maxDepth svc\<rparr>)))"
  by (simp add: analyzeInternalMethodCalls_def analyzeInternalMethodCallsBody_def tryCatch_def
      split: prod.splits option.splits outcome.splits)

lemma analyzeInternalMethodCalls_state:
  "snd (analyzeInternalMethodCalls h methodSymbol u (svc, c))
     = (case openTextDocument h u of
          None \<Rightarrow> (svc\<lparr>processedMethods := {}\<rparr>, c)
        | Some doc \<Rightarrow>
            (svc\<lparr>processedMethods :=
                   fst (snd (findMethodCallsInText h (maxDepth svc)
                               (docGetTextRange doc (symRange methodSymbol))
                               (symRange methodSymbol) u 0 ({}, c)))\<rparr>,
             snd (snd (findMethodCallsInText h (maxDepth svc)
                         (docGetTextRange doc (symRange methodSymbol))
                         (symRange methodSymbol) u 0 ({}, c)))))"
  by (simp add: analyzeInternalMethodCalls_def analyzeInternalMethodCallsBody_def tryCatch_def
      split: prod.splits option.splits outcome.splits)

subsection \<open>Runs of the scenarios\<close>

lemma open_symbol_fields:
  "symName openSymbol = ''open''" "symSelectionRange openSymbol = onLine0 10 14"
  by (simp_all add: openSymbol_def)

lemma open_analysis:
  assumes "2 \<le> maxDepth svc"
  shows "analyzeMethodCalls openHost openSymbol openFile (svc, openCache)
     = (Returned (Some openTree),
        (svc\<lparr>processedMethods := {openNowKey, openKey}\<rparr>, openCache))"
proof -
  have r: "findMethodReferencesWorkspace openHost (maxDepth svc)
             (MethodCallInfo ''open'' openFile (onLine0 10 14) None 0 []) 0 ({}, openCache)
           = (openTree, ({openNowKey, openKey}, openCache))"
    using open_run [OF assms] by (simp add: openRoot_def)
  show ?thesis
    by (simp add: analyzeMethodCalls_def analyzeMethodCallsBody_def tryCatch_def
        open_symbol_fields r)
qed

lemma open_depths: "maxDepth (setMaxDepth 2 svc) = 2" "maxDepth newService = 3"
  by (simp_all add: setMaxDepth_def newService_def)

lemma open_value3:
  "fst (analyzeMethodCalls openHost openSymbol openFile (newService, openCache))
     = Returned (Some openTree)"
  using open_analysis [of newService] by (simp add: open_depths)

lemma mutual_symbol_fields:
  "symName symbolA = ''methodA''" "symSelectionRange symbolA = onLine0 9 16"
  by (simp_all add: symbolA_def)

lemma mutual_analysis:
  assumes "3 \<le> maxDepth svc"
  shows "analyzeInternalMethodCalls mutualHost symbolA mutualFile (svc, mutualCache)
     = (Returned (Some \<lparr>rootMethod = ''methodA'', rootUri = mutualFile,
                        rootRange = onLine0 9 16, calls = mutualCalls,
                        totalCallsFound = 3, analysisDepth = maxDepth svc\<rparr>),
        (svc\<lparr>processedMethods := {keyB, keyA}\<rparr>, mutualCache))"
proof -
  have c: "countTotalCalls mutualCalls = 3"
    by (simp add: mutualCalls_def secondA_def)
  show ?thesis
    by (simp add: analyzeInternalMethodCalls_def analyzeInternalMethodCallsBody_def
        tryCatch_def mutual_open mutual_texts mutual_run [OF assms] mutual_symbol_fields c)
qed




lemma diamond_open: "openTextDocument diamondHost diamondFile = Some (mkDocument 1 diamondText)"
  by (simp add: diamondHost_def workspaceHost_def)

lemma diamond_value:
  "fst (analyzeInternalMethodCalls diamondHost topSymbol diamondFile (newService, diamondCache))
     = Returned (Some \<lparr>rootMethod = ''top'', rootUri = diamondFile, rootRange = onLine0 9 12,
                       calls = diamondCalls, totalCallsFound = 5, analysisDepth = 3\<rparr>)"
  by code_simp

lemma diamond_matches:
  "map matchName (filter survivesFilter
     (sort_key matchIndex (findAllMethodCallMatches
        (docGetTextRange (mkDocument 1 diamondText) (symRange topSymbol)))))
   = [''top'', ''left'', ''right'']"
  by code_simp

lemma diamond_keys:
  "expandedKeys diamondCalls
     = [''file:///w/d.ts:0:9'', ''file:///w/d.ts:0:45'', ''file:///w/d.ts:0:102'',
        ''file:///w/d.ts:0:73'']"
  "nodeKey leafUnderRight = ''file:///w/d.ts:0:102''"
  "leafUnderRight \<in> set (imcNodes diamondCalls)"
  by code_simp+

lemma closed_open: "openTextDocument closedHost u = None"
  by (simp add: closedHost_def workspaceHost_def)

subsection \<open>The depth bound (C1)\<close>

text \<open>
  C1. \<open>setMaxDepth\<close> leaves the configured depth between 1 and 10. With a configured
  depth \<open>d\<close> that is not negative (the services only ever hold depths from 1 to 10), the
  root node of a backward analysis has depth 0 and no node of its tree has a depth above
  \<open>d\<close>; the top-level calls of a forward analysis have depth 0 and no node of the forest
  has a depth above \<open>d\<close>.
\<close>

theorem depth_bound:
  "1 \<le> maxDepth (setMaxDepth n svc) \<and> maxDepth (setMaxDepth n svc) \<le> 10
   \<and> (0 \<le> maxDepth svc \<and> fst (analyzeMethodCalls h methodSymbol u (svc, c)) = Returned (Some root)
        \<longrightarrow> mciDepth root = 0
            \<and> (\<forall>x \<in> set (mciNodes [root]). int (mciDepth x) \<le> maxDepth svc))
   \<and> (fst (analyzeInternalMethodCalls h methodSymbol u (svc, c)) = Returned (Some r)
        \<longrightarrow> (\<forall>x \<in> set (calls r). imcDepth x = 0)
            \<and> (\<forall>x \<in> set (imcNodes (calls r)). int (imcDepth x) \<le> maxDepth svc))"
proof (intro conjI impI)
  show "1 \<le> maxDepth (setMaxDepth n svc)" and "maxDepth (setMaxDepth n svc) \<le> 10"
    by (simp_all add: setMaxDepth_def)
next
  assume a: "0 \<le> maxDepth svc \<and> fst (analyzeMethodCalls h methodSymbol u (svc, c)) = Returned (Some root)"
  let ?node = "MethodCallInfo (symName methodSymbol) u (symSelectionRange methodSymbol) None 0 []"
  obtain root' st' where
    r: "findMethodReferencesWorkspace h (maxDepth svc) ?node 0 ({}, c) = (root', st')"
    by (cases "findMethodReferencesWorkspace h (maxDepth svc) ?node 0 ({}, c)") blast
  have eq: "root = root'"
    using a r by (simp add: analyzeMethodCalls_result)
  have "mciDepthsWithin (maxDepth svc) [?node]"
    using a by (simp add: mciDepthsWithin_single)
  then have w: "mciDepthsWithin (maxDepth svc) [root]"
    using backward_depths(1) [of "maxDepth svc" ?node h 0 "({}, c)"] r eq by simp
  show "mciDepth root = 0"
    using findMethodReferencesWorkspace_fields [OF r] eq by simp
  show "\<forall>x \<in> set (mciNodes [root]). int (mciDepth x) \<le> maxDepth svc"
    using w by (simp add: mciDepthsWithin_def)
next
  assume a: "fst (analyzeInternalMethodCalls h methodSymbol u (svc, c)) = Returned (Some r)"
  then obtain doc where d: "openTextDocument h u = Some doc"
    by (cases "openTextDocument h u") (auto simp: analyzeInternalMethodCalls_result)
  obtain out st' where
    f: "findMethodCallsInText h (maxDepth svc) (docGetTextRange doc (symRange methodSymbol))
          (symRange methodSymbol) u 0 ({}, c) = (out, st')"
    by (cases "findMethodCallsInText h (maxDepth svc) (docGetTextRange doc (symRange methodSymbol))
                 (symRange methodSymbol) u 0 ({}, c)") blast
  have out: "out = Returned (calls r)"
    using a d f by (cases out) (auto simp: analyzeInternalMethodCalls_result)
  have ok: "nodesOk (maxDepth svc) (calls r) \<and> depthsAt 0 (calls r)"
    using forward_nodes(1) [of h "maxDepth svc" _ "symRange methodSymbol" u 0 "({}, c)" "calls r" st'] f out
    by simp
  show "\<forall>x \<in> set (calls r). imcDepth x = 0"
    using ok by (simp add: depthsAt_def)
  show "\<forall>x \<in> set (imcNodes (calls r)). int (imcDepth x) \<le> maxDepth svc"
    using ok by (auto simp: nodesOk_def)
qed

theorem depth_bound_witness:
  "0 \<le> maxDepth newService
   \<and> maxDepth (setMaxDepth 25 newService) = 10
   \<and> maxDepth (setMaxDepth (- 4) newService) = 1
   \<and> fst (analyzeMethodCalls openHost openSymbol openFile (newService, openCache))
       = Returned (Some openTree)
   \<and> mciDepth openTree = 0
   \<and> list_all (\<lambda>x. int (mciDepth x) \<le> 3) (mciNodes [openTree])
   \<and> fst (analyzeInternalMethodCalls diamondHost topSymbol diamondFile
             (newService, diamondCache))
       = Returned (Some \<lparr>rootMethod = ''top'', rootUri = diamondFile,
                         rootRange = onLine0 9 12, calls = diamondCalls,
                         totalCallsFound = 5, analysisDepth = 3\<rparr>)
   \<and> list_all (\<lambda>x. imcDepth x = 0) diamondCalls
   \<and> list_all (\<lambda>x. int (imcDepth x) \<le> 3) (imcNodes diamondCalls)"
proof -
  have h: "0 \<le> maxDepth newService" and m: "maxDepth newService = 3"
    by (simp_all add: newService_def)
  note b = depth_bound [where n = 25 and svc = newService and h = openHost
                          and methodSymbol = openSymbol and u = openFile and c = openCache
                          and root = openTree]
  note f = depth_bound [where n = "- 4" and svc = newService and h = diamondHost
                          and methodSymbol = topSymbol and u = diamondFile
                          and c = diamondCache
                          and r = "\<lparr>rootMethod = ''top'', rootUri = diamondFile,
                                    rootRange = onLine0 9 12, calls = diamondCalls,
                                    totalCallsFound = 5, analysisDepth = 3\<rparr>"]
  have b1: "mciDepth openTree = 0"
    and b2: "list_all (\<lambda>x. int (mciDepth x) \<le> 3) (mciNodes [openTree])"
    using b h m open_value3 by (simp_all add: list_all_iff)
  have f1: "list_all (\<lambda>x. imcDepth x = 0) diamondCalls"
    and f2: "list_all (\<lambda>x. int (imcDepth x) \<le> 3) (imcNodes diamondCalls)"
    using f m diamond_value by (simp_all add: list_all_iff)
  have s1: "maxDepth (setMaxDepth 25 newService) = 10"
    and s2: "maxDepth (setMaxDepth (- 4) newService) = 1"
    using b f by (simp_all add: setMaxDepth_def)
  from h s1 s2 open_value3 b1 b2 diamond_value f1 f2 show ?thesis
    by blast
qed

subsection \<open>The concrete backward scenario (C2)\<close>

text \<open>
  C2. In a workspace whose only file holds the methods \<open>open\<close> (which calls nothing),
  \<open>openNow\<close> (which calls \<open>open\<close>) and \<open>quickStart\<close> (which calls \<open>openNow\<close>), indexed
  before the analysis, the backward analysis of \<open>open\<close> with maximal depth 2 returns the
  root \<open>open\<close> with the single child \<open>openNow\<close> at depth 1, and \<open>openNow\<close> has no child:
  \<open>quickStart\<close> is not in the tree. The statistics of the cache have no property
  \<open>totalReferences\<close>, so the search goes through the names of the symbols. It finds \<open>openNow\<close> for \<open>open\<close> because the name \<open>openNow\<close> includes \<open>open\<close>; for
  \<open>openNow\<close> it finds the selection range of \<open>openNow\<close> itself, twice, and nothing else,
  and the filter of the definition site removes both.
\<close>

theorem open_scenario_without_quickStart:
  "fst (analyzeMethodCalls openHost openSymbol openFile (setMaxDepth 2 newService, openCache))
     = Returned (Some
         (MethodCallInfo ''open'' openFile (onLine0 10 14) None 0
            [MethodCallInfo ''openNow'' openFile (onLine0 21 28) (Some ''open'') 1 []]))
   \<and> readProperty (getCacheStats openCache) ''totalReferences'' = None
   \<and> fst (searchWorkspaceForMethod openHost ''open'' openCache)
       = [Location openFile (onLine0 10 14), Location openFile (onLine0 10 14),
          Location openFile (onLine0 21 28)]
   \<and> fst (searchWorkspaceForMethod openHost ''openNow'' openCache)
       = [Location openFile (onLine0 21 28), Location openFile (onLine0 21 28)]"
proof -
  have "2 \<le> maxDepth (setMaxDepth 2 newService)"
    by (simp add: open_depths)
  then have "fst (analyzeMethodCalls openHost openSymbol openFile
                    (setMaxDepth 2 newService, openCache))
          = Returned (Some openTree)"
    by (simp add: open_analysis)
  then show ?thesis
    by (simp add: openTree_def openNowNode_def open_locations totalReferences_undefined)
qed

subsection \<open>Mutual recursion in the forward analysis (C5)\<close>










subsection \<open>Exceptions at the entry points (C7)\<close>

text \<open>
  C7. Neither entry point ever rejects: for every host, symbol, file and state, both
  \<open>analyzeMethodCalls\<close> and \<open>analyzeInternalMethodCalls\<close> return a value. Where the
  \<open>try\<close> block of the forward entry point throws, the entry point returns \<open>null\<close>, and the
  block throws when the document of the root method cannot be opened. In the backward
  analysis every failure of the host is caught inside the traversal, so its entry point
  always returns a tree.
\<close>

theorem entry_points_never_throw:
  "(\<exists>root. fst (analyzeMethodCalls h methodSymbol u sc) = Returned (Some root))
   \<and> (\<exists>r. fst (analyzeInternalMethodCalls h methodSymbol u sc) = Returned r)
   \<and> (fst (analyzeInternalMethodCallsBody h methodSymbol u sc) = Threw
        \<longrightarrow> fst (analyzeInternalMethodCalls h methodSymbol u sc) = Returned None)
   \<and> (openTextDocument h u = None
        \<longrightarrow> fst (analyzeInternalMethodCallsBody h methodSymbol u sc) = Threw)"
proof -
  have 1: "\<exists>root. fst (analyzeMethodCalls h methodSymbol u sc) = Returned (Some root)"
    by (cases sc) (simp add: analyzeMethodCalls_result)
  have 2: "\<exists>r. fst (analyzeInternalMethodCalls h methodSymbol u sc) = Returned r"
    by (auto simp: analyzeInternalMethodCalls_def tryCatch_def
        split: prod.splits outcome.splits)
  have 3: "fst (analyzeInternalMethodCallsBody h methodSymbol u sc) = Threw
             \<longrightarrow> fst (analyzeInternalMethodCalls h methodSymbol u sc) = Returned None"
    by (simp add: analyzeInternalMethodCalls_def tryCatch_def split: prod.splits)
  have 4: "openTextDocument h u = None
             \<longrightarrow> fst (analyzeInternalMethodCallsBody h methodSymbol u sc) = Threw"
    by (simp add: analyzeInternalMethodCallsBody_def)
  from 1 2 3 4 show ?thesis by blast
qed

theorem entry_points_never_throw_witness:
  "openTextDocument closedHost openFile = None
   \<and> fst (analyzeInternalMethodCallsBody closedHost openSymbol openFile
             (newService, emptyCache)) = Threw
   \<and> fst (analyzeInternalMethodCalls closedHost openSymbol openFile (newService, emptyCache))
       = Returned None
   \<and> (\<exists>root. fst (analyzeMethodCalls closedHost openSymbol openFile (newService, emptyCache))
                = Returned (Some root))"
  using entry_points_never_throw [of closedHost openSymbol openFile "(newService, emptyCache)"]
    closed_open [of openFile]
  by simp

subsection \<open>Determinism of consecutive runs (C8)\<close>

text \<open>
  C8. When a run of an analysis leaves the symbol cache as it found it, a second run on
  the same root, with the same host and the service as the first run left it, returns the
  same result as the first: the same tree, node for node and child for child. The
  configured depth is not changed by a run, and what the first run left in the set of
  processed methods does not matter to the second.
\<close>

theorem consecutive_runs_agree:
  "(analyzeMethodCalls h methodSymbol u (svc, c) = (tree, (svc', c')) \<and> c' = c
      \<longrightarrow> fst (analyzeMethodCalls h methodSymbol u (svc', c')) = tree
          \<and> maxDepth svc' = maxDepth svc)
   \<and> (analyzeInternalMethodCalls h methodSymbol u (svc, c) = (res, (svc'', c'')) \<and> c'' = c
      \<longrightarrow> fst (analyzeInternalMethodCalls h methodSymbol u (svc'', c'')) = res
          \<and> maxDepth svc'' = maxDepth svc)"
proof (intro conjI impI)
  assume a: "analyzeMethodCalls h methodSymbol u (svc, c) = (tree, (svc', c')) \<and> c' = c"
  have "snd (analyzeMethodCalls h methodSymbol u (svc, c)) = (svc', c')"
    using a by simp
  then show m: "maxDepth svc' = maxDepth svc"
    unfolding analyzeMethodCalls_state by auto
  have f: "fst (analyzeMethodCalls h methodSymbol u (svc, c)) = tree"
    using a by simp
  from a have c: "c' = c"
    by simp
  have "fst (analyzeMethodCalls h methodSymbol u (svc', c'))
          = fst (analyzeMethodCalls h methodSymbol u (svc, c))"
    unfolding analyzeMethodCalls_result m c by (rule refl)
  with f show "fst (analyzeMethodCalls h methodSymbol u (svc', c')) = tree"
    by simp
next
  assume a: "analyzeInternalMethodCalls h methodSymbol u (svc, c) = (res, (svc'', c''))
             \<and> c'' = c"
  have "snd (analyzeInternalMethodCalls h methodSymbol u (svc, c)) = (svc'', c'')"
    using a by simp
  then show m: "maxDepth svc'' = maxDepth svc"
    unfolding analyzeInternalMethodCalls_state by (auto split: option.splits)
  have f: "fst (analyzeInternalMethodCalls h methodSymbol u (svc, c)) = res"
    using a by simp
  from a have c: "c'' = c"
    by simp
  have "fst (analyzeInternalMethodCalls h methodSymbol u (svc'', c''))
          = fst (analyzeInternalMethodCalls h methodSymbol u (svc, c))"
    unfolding analyzeInternalMethodCalls_result m c by (rule refl)
  with f show "fst (analyzeInternalMethodCalls h methodSymbol u (svc'', c'')) = res"
    by simp
qed

theorem consecutive_runs_agree_witness:
  "analyzeMethodCalls openHost openSymbol openFile (setMaxDepth 2 newService, openCache)
     = (Returned (Some openTree),
        ((setMaxDepth 2 newService)\<lparr>processedMethods := {openNowKey, openKey}\<rparr>, openCache))
   \<and> fst (analyzeMethodCalls openHost openSymbol openFile
            ((setMaxDepth 2 newService)\<lparr>processedMethods := {openNowKey, openKey}\<rparr>,
             openCache))
       = Returned (Some openTree)
   \<and> analyzeInternalMethodCalls mutualHost symbolA mutualFile (newService, mutualCache)
     = (Returned (Some \<lparr>rootMethod = ''methodA'', rootUri = mutualFile,
                        rootRange = onLine0 9 16, calls = mutualCalls,
                        totalCallsFound = 3, analysisDepth = 3\<rparr>),
        (newService\<lparr>processedMethods := {keyB, keyA}\<rparr>, mutualCache))
   \<and> fst (analyzeInternalMethodCalls mutualHost symbolA mutualFile
            (newService\<lparr>processedMethods := {keyB, keyA}\<rparr>, mutualCache))
       = Returned (Some \<lparr>rootMethod = ''methodA'', rootUri = mutualFile,
                        rootRange = onLine0 9 16, calls = mutualCalls,
                        totalCallsFound = 3, analysisDepth = 3\<rparr>)"
proof -
  have m: "3 \<le> maxDepth newService" and m3: "maxDepth newService = 3"
    by (simp_all add: newService_def)
  have m2: "2 \<le> maxDepth (setMaxDepth 2 newService)"
    by (simp add: open_depths)
  note a = open_analysis [OF m2]
  note b = mutual_analysis [OF m]
  note t1 = consecutive_runs_agree
              [where h = openHost and methodSymbol = openSymbol and u = openFile
                 and svc = "setMaxDepth 2 newService" and c = openCache
                 and tree = "Returned (Some openTree)"
                 and svc' = "(setMaxDepth 2 newService)\<lparr>processedMethods :=
                                {openNowKey, openKey}\<rparr>"
                 and c' = openCache]
  note t2 = consecutive_runs_agree
              [where h = mutualHost and methodSymbol = symbolA and u = mutualFile
                 and svc = newService and c = mutualCache
                 and res = "Returned (Some \<lparr>rootMethod = ''methodA'', rootUri = mutualFile,
                        rootRange = onLine0 9 16, calls = mutualCalls,
                        totalCallsFound = 3, analysisDepth = 3\<rparr>)"
                 and svc'' = "newService\<lparr>processedMethods := {keyB, keyA}\<rparr>"
                 and c'' = mutualCache]
  have p1: "fst (analyzeMethodCalls openHost openSymbol openFile
            ((setMaxDepth 2 newService)\<lparr>processedMethods := {openNowKey, openKey}\<rparr>,
             openCache)) = Returned (Some openTree)"
    using t1 a by blast
  have b': "analyzeInternalMethodCalls mutualHost symbolA mutualFile (newService, mutualCache)
     = (Returned (Some \<lparr>rootMethod = ''methodA'', rootUri = mutualFile,
                        rootRange = onLine0 9 16, calls = mutualCalls,
                        totalCallsFound = 3, analysisDepth = 3\<rparr>),
        (newService\<lparr>processedMethods := {keyB, keyA}\<rparr>, mutualCache))"
    using b by (simp add: m3)
  have p2: "fst (analyzeInternalMethodCalls mutualHost symbolA mutualFile
            (newService\<lparr>processedMethods := {keyB, keyA}\<rparr>, mutualCache))
       = Returned (Some \<lparr>rootMethod = ''methodA'', rootUri = mutualFile,
                        rootRange = onLine0 9 16, calls = mutualCalls,
                        totalCallsFound = 3, analysisDepth = 3\<rparr>)"
    using t2 b' by blast
  from a p1 b' p2 show ?thesis by blast
qed

subsection \<open>The scan at depth 0 (C9)\<close>

lemma forEachMatch_names_depth0:
  "map imcMethodName (fst (forEachMatch h md doc br u 0 ms acc st))
     = map imcMethodName acc
         @ (case List.find survivesFilter ms of None \<Rightarrow> [] | Some m \<Rightarrow> [matchName m])"
proof (induction ms arbitrary: acc st)
  case Nil
  show ?case by simp
next
  case (Cons m ms)
  show ?case
  proof (cases "survivesFilter m")
    case True
    then show ?thesis
      by (simp add: survivesFilter_def mkCallInfo_def split: prod.splits)
  next
    case False
    then have skip: "matchName m = [] \<or> isBuiltInOrCommon (matchName m)"
      by (simp add: survivesFilter_def)
    have "List.find survivesFilter (m # ms) = List.find survivesFilter ms"
      using False by simp
    with Cons [of acc st] skip show ?thesis
      by simp
  qed
qed

lemma forEachMatch_names_deeper:
  "1 \<le> d \<Longrightarrow>
   map imcMethodName (fst (forEachMatch h md doc br u d ms acc st))
     = map imcMethodName acc @ map matchName (filter survivesFilter ms)"
proof (induction ms arbitrary: acc st)
  case Nil
  show ?case by simp
next
  case (Cons m ms)
  show ?case
  proof (cases "survivesFilter m")
    case True
    with Cons show ?thesis
      by (simp add: survivesFilter_def mkCallInfo_def split: prod.splits)
  next
    case False
    then have skip: "matchName m = [] \<or> isBuiltInOrCommon (matchName m)"
      by (simp add: survivesFilter_def)
    have "filter survivesFilter (m # ms) = filter survivesFilter ms"
      using False by simp
    with Cons.IH [OF Cons.prems, of acc st] skip show ?thesis
      by simp
  qed
qed

lemma removeDuplicateCalls_short: "length cs \<le> 1 \<Longrightarrow> removeDuplicateCalls cs = cs"
  by (cases cs) (auto simp: removeDuplicateCalls_def)

lemma forEachMatch_depth0_length:
  "length (fst (forEachMatch h md doc br u 0 ms [] st)) \<le> 1"
proof -
  have "length (map imcMethodName (fst (forEachMatch h md doc br u 0 ms [] st))) \<le> 1"
    unfolding forEachMatch_names_depth0 by (simp split: option.splits)
  then show ?thesis by simp
qed

lemma findMethodCallsInText_depth0:
  assumes "\<not> md \<le> 0" and "openTextDocument h u = Some doc"
  shows "fst (findMethodCallsInText h md body br u 0 st)
           = Returned (fst (forEachMatch h md doc br u 0
                              (sort_key matchIndex (findAllMethodCallMatches body)) [] st))"
proof -
  obtain cs st' where
    r: "forEachMatch h md doc br u 0 (sort_key matchIndex (findAllMethodCallMatches body)) [] st
          = (cs, st')"
    by (cases "forEachMatch h md doc br u 0
                 (sort_key matchIndex (findAllMethodCallMatches body)) [] st") blast
  have "length cs \<le> 1"
    using forEachMatch_depth0_length
            [of h md doc br u "sort_key matchIndex (findAllMethodCallMatches body)" st] r
    by simp
  then have "removeDuplicateCalls cs = cs"
    by (rule removeDuplicateCalls_short)
  with assms r show ?thesis
    by (simp add: findMethodCallsInText.simps)
qed

lemma findMethodCallsInText_depth0_length:
  "fst (findMethodCallsInText h md body br u 0 st) = Returned cs \<Longrightarrow> length cs \<le> 1"
proof (cases "md \<le> 0")
  case True
  assume "fst (findMethodCallsInText h md body br u 0 st) = Returned cs"
  with True show ?thesis by (simp add: findMethodCallsInText.simps)
next
  case False
  assume a: "fst (findMethodCallsInText h md body br u 0 st) = Returned cs"
  show ?thesis
  proof (cases "openTextDocument h u")
    case None
    with False a show ?thesis by (simp add: findMethodCallsInText.simps)
  next
    case (Some doc)
    with False a findMethodCallsInText_depth0 [OF False Some, of body br st]
      forEachMatch_depth0_length [of h md doc br u _ st]
    show ?thesis by auto
  qed
qed

text \<open>
  C9. The list of top-level calls of a forward analysis has at most one entry. With a
  configured depth of at least 1 and a root document that opens, the analysis returns a
  result whose top-level calls are the call for the first match, in order of position, that
  survives the filter of built-in names, and nothing else, however many matches follow. At
  a depth of 1 or more the loop over the matches is not cut short: it yields one call for
  every match that survives the filter.
\<close>

theorem depth0_single_call:
  "(fst (analyzeInternalMethodCalls h methodSymbol u (svc, c)) = Returned (Some r)
      \<longrightarrow> length (calls r) \<le> 1)
   \<and> (1 \<le> maxDepth svc \<and> openTextDocument h u = Some doc \<longrightarrow>
        (\<exists>r. fst (analyzeInternalMethodCalls h methodSymbol u (svc, c)) = Returned (Some r)
           \<and> map imcMethodName (calls r)
               = (case List.find survivesFilter
                        (sort_key matchIndex
                           (findAllMethodCallMatches
                              (docGetTextRange doc (symRange methodSymbol)))) of
                    None \<Rightarrow> []
                  | Some m \<Rightarrow> [matchName m])))
   \<and> (1 \<le> d \<longrightarrow>
        map imcMethodName (fst (forEachMatch h md doc' br u' d ms [] st))
          = map matchName (filter survivesFilter ms))"
proof (intro conjI impI)
  assume a: "fst (analyzeInternalMethodCalls h methodSymbol u (svc, c)) = Returned (Some r)"
  then obtain dc where d: "openTextDocument h u = Some dc"
    by (cases "openTextDocument h u") (auto simp: analyzeInternalMethodCalls_result)
  have "fst (findMethodCallsInText h (maxDepth svc) (docGetTextRange dc (symRange methodSymbol))
               (symRange methodSymbol) u 0 ({}, c)) = Returned (calls r)"
    using a d by (auto simp: analyzeInternalMethodCalls_result split: outcome.splits)
  then show "length (calls r) \<le> 1"
    by (rule findMethodCallsInText_depth0_length)
next
  assume a: "1 \<le> maxDepth svc \<and> openTextDocument h u = Some doc"
  then have m: "\<not> maxDepth svc \<le> 0" and o: "openTextDocument h u = Some doc"
    by auto
  let ?ms = "sort_key matchIndex
               (findAllMethodCallMatches (docGetTextRange doc (symRange methodSymbol)))"
  let ?cs = "fst (forEachMatch h (maxDepth svc) doc (symRange methodSymbol) u 0 ?ms [] ({}, c))"
  have f: "fst (findMethodCallsInText h (maxDepth svc)
                  (docGetTextRange doc (symRange methodSymbol))
                  (symRange methodSymbol) u 0 ({}, c)) = Returned ?cs"
    by (rule findMethodCallsInText_depth0 [OF m o])
  have n: "map imcMethodName ?cs
             = (case List.find survivesFilter ?ms of None \<Rightarrow> [] | Some m \<Rightarrow> [matchName m])"
    unfolding forEachMatch_names_depth0 by simp
  let ?r = "\<lparr>rootMethod = symName methodSymbol, rootUri = u,
              rootRange = symSelectionRange methodSymbol, calls = ?cs,
              totalCallsFound = countTotalCalls ?cs, analysisDepth = maxDepth svc\<rparr>"
  have "fst (analyzeInternalMethodCalls h methodSymbol u (svc, c)) = Returned (Some ?r)"
    by (simp add: analyzeInternalMethodCalls_result o f)
  moreover have "map imcMethodName (calls ?r)
             = (case List.find survivesFilter ?ms of None \<Rightarrow> [] | Some m \<Rightarrow> [matchName m])"
    using n by simp
  ultimately show "\<exists>r. fst (analyzeInternalMethodCalls h methodSymbol u (svc, c))
                          = Returned (Some r)
           \<and> map imcMethodName (calls r)
               = (case List.find survivesFilter ?ms of None \<Rightarrow> [] | Some m \<Rightarrow> [matchName m])"
    by blast
next
  assume "1 \<le> d"
  then show "map imcMethodName (fst (forEachMatch h md doc' br u' d ms [] st))
          = map matchName (filter survivesFilter ms)"
    using forEachMatch_names_deeper [of d h md doc' br u' ms "[]" st] by simp
qed

theorem depth0_single_call_witness:
  "1 \<le> maxDepth newService
   \<and> openTextDocument diamondHost diamondFile = Some (mkDocument 1 diamondText)
   \<and> fst (analyzeInternalMethodCalls diamondHost topSymbol diamondFile
             (newService, diamondCache))
       = Returned (Some \<lparr>rootMethod = ''top'', rootUri = diamondFile,
                         rootRange = onLine0 9 12, calls = diamondCalls,
                         totalCallsFound = 5, analysisDepth = 3\<rparr>)
   \<and> length diamondCalls \<le> 1
   \<and> map imcMethodName diamondCalls = [''top'']
   \<and> map matchName (filter survivesFilter
        (sort_key matchIndex (findAllMethodCallMatches
           (docGetTextRange (mkDocument 1 diamondText) (symRange topSymbol)))))
      = [''top'', ''left'', ''right'']
   \<and> map imcMethodName
        (fst (forEachMatch diamondHost 3 (mkDocument 1 diamondText) (symRange topSymbol)
                diamondFile 1
                (sort_key matchIndex (findAllMethodCallMatches
                   (docGetTextRange (mkDocument 1 diamondText) (symRange topSymbol))))
                [] ({}, diamondCache)))
      = [''top'', ''left'', ''right'']"
proof -
  have m: "1 \<le> maxDepth newService"
    by (simp add: newService_def)
  note t = depth0_single_call
             [where h = diamondHost and methodSymbol = topSymbol and u = diamondFile
                and svc = newService and c = diamondCache
                and r = "\<lparr>rootMethod = ''top'', rootUri = diamondFile,
                          rootRange = onLine0 9 12, calls = diamondCalls,
                          totalCallsFound = 5, analysisDepth = 3\<rparr>"
                and doc = "mkDocument 1 diamondText"
                and d = 1 and md = 3 and doc' = "mkDocument 1 diamondText"
                and br = "symRange topSymbol" and u' = diamondFile
                and ms = "sort_key matchIndex (findAllMethodCallMatches
                   (docGetTextRange (mkDocument 1 diamondText) (symRange topSymbol)))"
                and st = "({}, diamondCache)"]
  have l: "length diamondCalls \<le> 1"
    using t diamond_value by simp
  have n: "map imcMethodName diamondCalls = [''top'']"
    by (simp add: diamondCalls_def)
  have d: "map imcMethodName
        (fst (forEachMatch diamondHost 3 (mkDocument 1 diamondText) (symRange topSymbol)
                diamondFile 1
                (sort_key matchIndex (findAllMethodCallMatches
                   (docGetTextRange (mkDocument 1 diamondText) (symRange topSymbol))))
                [] ({}, diamondCache)))
      = [''top'', ''left'', ''right'']"
    using t diamond_matches by simp
  from m diamond_open diamond_value l n diamond_matches d show ?thesis
    by blast
qed

subsection \<open>The set of processed methods (C10)\<close>

text \<open>
  C10. The set of processed methods only grows during a forward run: each of the three
  functions of the traversal returns a set that contains the one it was given. In the
  forest that a run returns, the nodes that were expanded (resolved and not recursive)
  have pairwise different definition keys, so no definition is expanded twice; all these
  keys are in the set of processed methods at the end of the run; and a node marked
  recursive has no children. A match whose definition key is already in the set, on
  whatever path the key got there, yields a leaf marked recursive.
\<close>

theorem visited_definitions_expanded_once:
  "fst st \<subseteq> fst (snd (findMethodCallsInText h md body br u d st))
   \<and> fst st \<subseteq> fst (snd (forEachMatch h md doc br u d ms acc st))
   \<and> fst st \<subseteq> fst (snd (expandCall h md dfn key d st))
   \<and> (fst (analyzeInternalMethodCalls h methodSymbol u' (svc, c)) = Returned (Some r) \<longrightarrow>
        distinct (expandedKeys (calls r))
        \<and> set (expandedKeys (calls r))
            \<subseteq> processedMethods
                (fst (snd (analyzeInternalMethodCalls h methodSymbol u' (svc, c))))
        \<and> (\<forall>n \<in> set (imcNodes (calls r)). imcIsRecursive n \<longrightarrow> imcChildren n = []))
   \<and> (survivesFilter m
        \<and> serviceFindMethodDefinition h (snd st) (matchName m) u = Some target
        \<and> forwardMethodKey (Some target) (matchName m) \<in> fst st \<longrightarrow>
        forEachMatch h md doc br u d (m # ms) acc st
          = (if d < 1
             then (acc @ [mkCallInfo m u (callRangeOf doc br m) (Some target) d [] True], st)
             else forEachMatch h md doc br u d ms
                    (acc @ [mkCallInfo m u (callRangeOf doc br m) (Some target) d [] True]) st))"
proof (intro conjI impI)
  show "fst st \<subseteq> fst (snd (findMethodCallsInText h md body br u d st))"
    using forward_visited(1) [of st h md body br u d] by simp
  show "fst st \<subseteq> fst (snd (forEachMatch h md doc br u d ms acc st))"
    using forward_visited(2) [of st h md doc br u d ms acc] by simp
  show "fst st \<subseteq> fst (snd (expandCall h md dfn key d st))"
    using forward_visited(3) [of dfn key st h md d]
    by (auto simp: expandedFresh_def split: if_splits)
next
  assume a: "fst (analyzeInternalMethodCalls h methodSymbol u' (svc, c)) = Returned (Some r)"
  then obtain dc where o: "openTextDocument h u' = Some dc"
    by (cases "openTextDocument h u'") (auto simp: analyzeInternalMethodCalls_result)
  let ?f = "findMethodCallsInText h (maxDepth svc) (docGetTextRange dc (symRange methodSymbol))
              (symRange methodSymbol) u' 0 ({}, c)"
  have f: "fst ?f = Returned (calls r)"
    using a o by (auto simp: analyzeInternalMethodCalls_result split: outcome.splits)
  have p: "processedMethods (fst (snd (analyzeInternalMethodCalls h methodSymbol u' (svc, c))))
             = fst (snd ?f)"
    by (simp add: analyzeInternalMethodCalls_state o)
  have fresh: "expandedFresh {} (calls r) (fst (snd ?f))"
    using forward_visited(1) [of "({}, c)" h "maxDepth svc" _ "symRange methodSymbol" u' 0] f
    by simp
  show "distinct (expandedKeys (calls r))"
    using fresh by (simp add: expandedFresh_def)
  show "set (expandedKeys (calls r))
            \<subseteq> processedMethods
                (fst (snd (analyzeInternalMethodCalls h methodSymbol u' (svc, c))))"
    unfolding p using fresh by (auto simp: expandedFresh_def)
  obtain st' where g: "?f = (Returned (calls r), st')"
    using f by (cases ?f) auto
  show "\<forall>n \<in> set (imcNodes (calls r)). imcIsRecursive n \<longrightarrow> imcChildren n = []"
    using forward_nodes(1) [OF g] by (auto simp: nodesOk_def)
next
  assume a: "survivesFilter m
        \<and> serviceFindMethodDefinition h (snd st) (matchName m) u = Some target
        \<and> forwardMethodKey (Some target) (matchName m) \<in> fst st"
  then have e: "expandCall h md (Some target) (forwardMethodKey (Some target) (matchName m)) d st
                  = ([], st)"
    by (simp add: expandCall_recursive)
  show "forEachMatch h md doc br u d (m # ms) acc st
          = (if d < 1
             then (acc @ [mkCallInfo m u (callRangeOf doc br m) (Some target) d [] True], st)
             else forEachMatch h md doc br u d ms
                    (acc @ [mkCallInfo m u (callRangeOf doc br m) (Some target) d [] True]) st)"
    using a e by (simp add: survivesFilter_def)
qed

theorem visited_definitions_expanded_once_witness:
  "fst (analyzeInternalMethodCalls diamondHost topSymbol diamondFile
          (newService, diamondCache))
     = Returned (Some \<lparr>rootMethod = ''top'', rootUri = diamondFile,
                       rootRange = onLine0 9 12, calls = diamondCalls,
                       totalCallsFound = 5, analysisDepth = 3\<rparr>)
   \<and> distinct (expandedKeys diamondCalls)
   \<and> nodeKey leafUnderRight \<in> set (expandedKeys diamondCalls)
   \<and> leafUnderRight \<in> set (imcNodes diamondCalls)
   \<and> imcIsRecursive leafUnderRight
   \<and> imcChildren leafUnderRight = []
   \<and> list_all (\<lambda>k. k \<in> processedMethods
                         (fst (snd (analyzeInternalMethodCalls diamondHost topSymbol
                                      diamondFile (newService, diamondCache)))))
        (expandedKeys diamondCalls)"
proof -
  note t = visited_definitions_expanded_once
             [where h = diamondHost and methodSymbol = topSymbol and u' = diamondFile
                and svc = newService and c = diamondCache
                and r = "\<lparr>rootMethod = ''top'', rootUri = diamondFile,
                          rootRange = onLine0 9 12, calls = diamondCalls,
                          totalCallsFound = 5, analysisDepth = 3\<rparr>"]
  note t4 = t [THEN conjunct2, THEN conjunct2, THEN conjunct2, THEN conjunct1]
  note t5 = mp [OF t4 diamond_value]
  have d: "distinct (expandedKeys diamondCalls)"
    using t5 by simp
  have s: "list_all (\<lambda>k. k \<in> processedMethods
                         (fst (snd (analyzeInternalMethodCalls diamondHost topSymbol
                                      diamondFile (newService, diamondCache)))))
              (expandedKeys diamondCalls)"
    using t5 unfolding list_all_iff by auto
  have k: "nodeKey leafUnderRight \<in> set (expandedKeys diamondCalls)"
    by (simp add: diamond_keys)
  have r: "imcIsRecursive leafUnderRight" "imcChildren leafUnderRight = []"
    by (simp_all add: leafUnderRight_def)
  from diamond_value d k diamond_keys(3) r s show ?thesis
    by blast
qed

end
